theory Spec2Isabelle
  imports Complex_Main "HOL-Library.Word"
begin

unbundle bit_operations_syntax

section \<open>Bounded optimisation loop (bounded\_while\_loop.py)\<close>

text \<open>
  Scores are floating-point scalars in the source. They are modelled as real numbers
  extended by the two infinities, because the source itself uses \<open>-jnp.inf\<close> as a
  score value (the initial \<open>prev_score\<close>). Rounding is not modelled, and a
  not-a-number score is outside the model; the one place where the source computes a
  not-a-number value itself (the relative increase \<open>inc\<close> when \<open>prev_score\<close> is
  infinite or both operands of the division are zero) is modelled by \<open>None\<close>,
  which compares false with everything, as IEEE comparison does.
\<close>

datatype score = NegInf | Fin real | PosInf

datatype error = ValueError | AssertionError | TypeError | IndexError

text \<open>\<open>a > b\<close> on scores.\<close>

fun score_gt :: "score \<Rightarrow> score \<Rightarrow> bool" where
  "score_gt NegInf _ = False"
| "score_gt (Fin a) NegInf = True"
| "score_gt (Fin a) (Fin b) = (b < a)"
| "score_gt (Fin a) PosInf = False"
| "score_gt PosInf PosInf = False"
| "score_gt PosInf _ = True"

text \<open>\<open>a \<ge> b\<close> on scores.\<close>

definition score_ge :: "score \<Rightarrow> score \<Rightarrow> bool" where
  "score_ge a b = (score_gt a b \<or> a = b)"

text \<open>\<open>a - b\<close>; the difference of equal infinities is not a number.\<close>

fun score_sub :: "score \<Rightarrow> score \<Rightarrow> score option" where
  "score_sub (Fin a) (Fin b) = Some (Fin (a - b))"
| "score_sub (Fin a) NegInf = Some PosInf"
| "score_sub (Fin a) PosInf = Some NegInf"
| "score_sub PosInf PosInf = None"
| "score_sub PosInf _ = Some PosInf"
| "score_sub NegInf NegInf = None"
| "score_sub NegInf _ = Some NegInf"

fun score_abs :: "score \<Rightarrow> score" where
  "score_abs (Fin a) = Fin \<bar>a\<bar>"
| "score_abs _ = PosInf"

text \<open>
  \<open>a / b\<close> for a divisor that is an absolute value (so a zero divisor is \<open>+0\<close>):
  a non-zero number over zero is an infinity of the same sign, zero over zero and
  infinity over infinity are not numbers.
\<close>

fun score_div :: "score option \<Rightarrow> score \<Rightarrow> score option" where
  "score_div None _ = None"
| "score_div (Some (Fin a)) (Fin b) =
     (if b \<noteq> 0 then Some (Fin (a / b))
      else if 0 < a then Some PosInf
      else if a < 0 then Some NegInf
      else None)"
| "score_div (Some (Fin a)) NegInf = Some (Fin 0)"
| "score_div (Some (Fin a)) PosInf = Some (Fin 0)"
| "score_div (Some PosInf) (Fin b) = Some (if b < 0 then NegInf else PosInf)"
| "score_div (Some NegInf) (Fin b) = Some (if b < 0 then PosInf else NegInf)"
| "score_div (Some PosInf) NegInf = None"
| "score_div (Some PosInf) PosInf = None"
| "score_div (Some NegInf) NegInf = None"
| "score_div (Some NegInf) PosInf = None"

type_synonym 's loop_val = "score \<times> (score \<times> 's) \<times> (score \<times> 's)"

definition cond_fun :: "score \<Rightarrow> 's loop_val \<Rightarrow> bool" where
  "cond_fun min_inc args =
     (case args of (prev_score, (current_score, current_state), (best_score, best_state)) \<Rightarrow>
        let inc = score_div (score_sub current_score prev_score) (score_abs prev_score)
        in score_gt current_score prev_score \<and>
           (prev_score = NegInf \<or>
            (case inc of None \<Rightarrow> False | Some i \<Rightarrow> score_gt i min_inc)))"

definition body_fun :: "('s \<Rightarrow> score) \<Rightarrow> ('s \<Rightarrow> 's) \<Rightarrow> 's loop_val \<Rightarrow> 's loop_val" where
  "body_fun score_fun update_fun args =
     (case args of (prev_score, (current_score, current_state), (best_score, best_state)) \<Rightarrow>
        let prev_score' = current_score;
            current_state' = update_fun current_state;
            current_score' = score_fun current_state';
            best' = (if score_gt current_score' best_score
                     then (current_score', current_state')
                     else (best_score, best_state))
        in (prev_score', (current_score', current_state'), best'))"

text \<open>
  \<open>_while_loop\<close>: at \<open>max_steps = 1\<close> the body is applied and its result kept only
  where the predicate held; otherwise the loop is run twice on \<open>max_steps // 2\<close>, each
  time only if the predicate still holds. For \<open>max_steps \<le> 0\<close> the source recurses
  on \<open>max_steps // 2\<close> for ever (\<open>0 // 2 = 0\<close>, \<open>-1 // 2 = -1\<close>): no value is
  returned, which is \<open>None\<close>.
\<close>

function while_loop ::
  "('v \<Rightarrow> bool) \<Rightarrow> ('v \<Rightarrow> 'v) \<Rightarrow> bool \<times> 'v \<Rightarrow> int \<Rightarrow> (bool \<times> 'v) option" where
  "while_loop cond body data max_steps =
     (if max_steps = 1 then
        (case data of (pred, val) \<Rightarrow>
           let new_val = body val;
               new_val' = (if pred then new_val else val)
           in Some (cond new_val', new_val'))
      else if max_steps \<le> 0 then None
      else
        (case (if fst data then while_loop cond body data (max_steps div 2) else Some data) of
           None \<Rightarrow> None
         | Some data1 \<Rightarrow>
             (if fst data1 then while_loop cond body data1 (max_steps div 2) else Some data1)))"
  by pat_completeness auto
termination
  by (relation "measure (\<lambda>(cond, body, data, max_steps). nat max_steps)") auto

text \<open>
  \<open>bounded_while_loop\<close>. The outer \<open>option\<close> is \<open>None\<close> when the call does not
  return; \<open>Inl\<close> is the raised exception. \<open>max_steps\<close> is typed as an integer, so the
  \<open>isinstance\<close> test of the source holds.
\<close>

definition bounded_while_loop ::
  "('v \<Rightarrow> bool) \<Rightarrow> ('v \<Rightarrow> 'v) \<Rightarrow> 'v \<Rightarrow> int \<Rightarrow> (error + 'v) option" where
  "bounded_while_loop cond body init_val max_steps =
     (if max_steps < 0 then Some (Inl ValueError)
      else if max_steps = 0 then Some (Inr init_val)
      else if max_steps AND (max_steps - 1) \<noteq> 0 then Some (Inl ValueError)
      else (case while_loop cond body (cond init_val, init_val) max_steps of
              None \<Rightarrow> None
            | Some (_, val) \<Rightarrow> Some (Inr val)))"

definition init_loop_val :: "('s \<Rightarrow> score) \<Rightarrow> 's \<Rightarrow> 's loop_val" where
  "init_loop_val score_fun init_state =
     (let init_score_state = (score_fun init_state, init_state)
      in (NegInf, init_score_state, init_score_state))"

definition bounded_optimize ::
  "('s \<Rightarrow> score) \<Rightarrow> ('s \<Rightarrow> 's) \<Rightarrow> 's \<Rightarrow> int \<Rightarrow> score \<Rightarrow> (error + score \<times> 's) option" where
  "bounded_optimize score_fun update_fun init_state max_steps min_inc =
     (case bounded_while_loop (cond_fun min_inc) (body_fun score_fun update_fun)
             (init_loop_val score_fun init_state) max_steps of
        None \<Rightarrow> None
      | Some (Inl e) \<Rightarrow> Some (Inl e)
      | Some (Inr (_, _, best)) \<Rightarrow> Some (Inr best))"

text \<open>
  The plain bounded loop the halving recursion computes: at most \<open>n\<close> iterations, each
  run only while the predicate holds. \<open>loop_iters\<close> counts the iterations that run.
\<close>

fun bounded_run :: "('v \<Rightarrow> bool) \<Rightarrow> ('v \<Rightarrow> 'v) \<Rightarrow> nat \<Rightarrow> 'v \<Rightarrow> 'v" where
  "bounded_run cond body 0 v = v"
| "bounded_run cond body (Suc n) v = (if cond v then bounded_run cond body n (body v) else v)"

fun loop_iters :: "('v \<Rightarrow> bool) \<Rightarrow> ('v \<Rightarrow> 'v) \<Rightarrow> nat \<Rightarrow> 'v \<Rightarrow> nat" where
  "loop_iters cond body 0 v = 0"
| "loop_iters cond body (Suc n) v = (if cond v then Suc (loop_iters cond body n (body v)) else 0)"

text \<open>
  The states the loop passes through: the carried current state after \<open>j\<close>
  iterations that ran is the update function applied \<open>j\<close> times to the initial
  state.
\<close>

definition visited :: "('s \<Rightarrow> 's) \<Rightarrow> 's \<Rightarrow> nat \<Rightarrow> 's" where
  "visited update_fun init_state j = (update_fun ^^ j) init_state"

section \<open>Indel transition matrices (h20.py)\<close>

text \<open>
  Floating-point numbers are modelled as real numbers: no rounding, overflow or
  underflow. Where the source divides by something that can be zero for parameters
  of the data model, the IEEE result is written out. The extension probabilities
  are below 1 in the data model, so \<open>1 - prob\<close> is not zero.
\<close>

type_synonym indelParams = "real \<times> real \<times> real \<times> real"
type_synonym counts = "real \<times> real \<times> real \<times> real"
type_synonym matrix = "real list list"

text \<open>\<open>jnp.finfo('float32').smallest_normal\<close>.\<close>

definition smallest_float32 :: real where
  "smallest_float32 = 1 / 2 ^ 126"

definition lm :: "real \<Rightarrow> real \<Rightarrow> real \<Rightarrow> real" where
  "lm t rate prob = exp (- rate * t / (1 - prob))"

definition indels :: "real \<Rightarrow> real \<Rightarrow> real \<Rightarrow> real" where
  "indels t rate prob = 1 / lm t rate prob - 1"

definition derivs :: "real \<Rightarrow> counts \<Rightarrow> indelParams \<Rightarrow> counts" where
  "derivs t cnts indelParams =
     (case indelParams of (lam, mu, x, y) \<Rightarrow>
      case cnts of (a, b, u, q) \<Rightarrow>
        let L = lm t lam x;
            M = lm t mu y;
            num = mu * (b * M + q * (1 - M));
            unsafe_denom = M * (1 - y) + L * q * y + L * M * (y * (1 + b - q) - 1);
            denom = (if 0 < unsafe_denom then unsafe_denom else 1);
            one_minus_m = (if M < 1 then 1 - M else smallest_float32)
        in if 0 < unsafe_denom
           then (mu * b * u * L * M * (1 - y) / denom - (lam + mu) * a,
                 - b * num * L / denom + lam * (1 - b),
                 - u * num * L / denom + lam * a,
                 ((M * (1 - L) - q * L * (1 - M)) * num / denom - q * lam / (1 - y)) / one_minus_m)
           else (- lam - mu, lam, lam, 0))"

definition initCounts :: "indelParams \<Rightarrow> counts" where
  "initCounts indelParams = (1, 0, 0, 0)"

text \<open>Arithmetic on the four counts, as on an array of shape (4,).\<close>

definition counts_add :: "counts \<Rightarrow> counts \<Rightarrow> counts" where
  "counts_add c d =
     (case c of (a, b, u, q) \<Rightarrow> case d of (a', b', u', q') \<Rightarrow> (a + a', b + b', u + u', q + q'))"

definition counts_scale :: "real \<Rightarrow> counts \<Rightarrow> counts" where
  "counts_scale s c = (case c of (a, b, u, q) \<Rightarrow> (s * a, s * b, s * u, s * q))"

text \<open>
  \<open>RK4body\<close>, the step function inside \<open>integrateCounts_RK4\<close>: one classical
  Runge-Kutta step from \<open>y\<close> at time \<open>t\<close> over \<open>dt\<close>.
\<close>

definition RK4body :: "indelParams \<Rightarrow> counts \<Rightarrow> real \<times> real \<Rightarrow> counts" where
  "RK4body indelParams y t_dt =
     (case t_dt of (t, dt) \<Rightarrow>
        let k1 = derivs t y indelParams;
            k2 = derivs (t + dt / 2) (counts_add y (counts_scale (dt / 2) k1)) indelParams;
            k3 = derivs (t + dt / 2) (counts_add y (counts_scale (dt / 2) k2)) indelParams;
            k4 = derivs (t + dt) (counts_add y (counts_scale dt k3)) indelParams;
            y_next = counts_add y (counts_scale (dt / 6)
                       (counts_add (counts_add k1 (counts_scale 2 k2))
                                   (counts_add (counts_scale 2 k3) k4)))
        in y_next)"

text \<open>
  \<open>integrateCounts\<close> is bound to \<open>integrateCounts_diffrax\<close>, which hands the
  derivative function, the interval from 0 to \<open>t\<close>, the initial counts and the
  parameters to \<open>diffeqsolve\<close> of the diffrax library and returns the last state of
  its solution. The library is not part of the repository: the solver is a parameter
  \<open>solve field t0 t1 y0 args\<close> of the model. The transition matrix is computed with no
  keyword arguments, so the default tolerances are in force and the check for a
  missing step and tolerance does not raise.
\<close>

type_synonym solver =
  "(real \<Rightarrow> counts \<Rightarrow> indelParams \<Rightarrow> counts) \<Rightarrow> real \<Rightarrow> real \<Rightarrow> counts \<Rightarrow> indelParams \<Rightarrow> counts"

definition integrateCounts :: "solver \<Rightarrow> real \<Rightarrow> indelParams \<Rightarrow> counts" where
  "integrateCounts solve t indelParams =
     (let y0 = initCounts indelParams in solve derivs 0 t y0 indelParams)"

text \<open>
  A solver built from the repository's own step function: a single \<open>RK4body\<close>
  step over the whole interval.
\<close>

definition rk4_single_step :: solver where
  "rk4_single_step field t0 t1 y0 args = RK4body args y0 (t0, t1 - t0)"

text \<open>
  \<open>alignmentIsProbablyUndetectable\<close>. When \<open>exp(-mu*t) = 1\<close> the expected match
  run length \<open>1 / (1 - exp(-mu*t))\<close> is plus infinity, and \<open>alphabetSize\<close> to that
  power is plus infinity for an alphabet size above 1 (the comparison is then false),
  1 for size 1 and 0 for size 0. Zero to a negative power is plus infinity too.
\<close>

definition alignmentIsProbablyUndetectable :: "real \<Rightarrow> indelParams \<Rightarrow> nat \<Rightarrow> bool" where
  "alignmentIsProbablyUndetectable t indelParams alphabetSize =
     (case indelParams of (lam, mu, x, y) \<Rightarrow>
        let d = 1 - exp (- mu * t);
            expectedInsertions = indels t lam x;
            expectedDeletions = indels t mu y;
            kappa = 2;
            lhs = (expectedInsertions + 1) * (expectedDeletions + 1)
        in if 0 < t then
             (if d = 0 then (if 1 < alphabetSize then False else kappa * real alphabetSize < lhs)
              else if alphabetSize = 0 \<and> d < 0 then False
              else kappa * (real alphabetSize powr (1 / d)) < lhs)
           else False)"

definition zeroTimeTransitionMatrix :: "indelParams \<Rightarrow> matrix" where
  "zeroTimeTransitionMatrix indelParams =
     (case indelParams of (lam, mu, x, y) \<Rightarrow>
        [[1, 0, 0],
         [1 - x, x, 0],
         [1 - y, 0, y]])"

text \<open>The last argument is the keyword argument \<open>norm\<close>, true by default.\<close>

definition transitionMatrixFromCounts :: "real \<Rightarrow> indelParams \<Rightarrow> counts \<Rightarrow> bool \<Rightarrow> matrix" where
  "transitionMatrixFromCounts t indelParams cnts norm_kw =
     (case indelParams of (lam, mu, x, y) \<Rightarrow>
      case cnts of (a, b, u, q) \<Rightarrow>
        let L = lm t lam x;
            M = lm t mu y;
            one_minus_L = (if L < 1 then 1 - L else smallest_float32);
            one_minus_M = (if M < 1 then 1 - M else smallest_float32);
            mx = [[a, b, 1 - a - b],
                  [u * L / one_minus_L,
                   1 - (b + q * (1 - M) / M) * L / one_minus_L,
                   (b + q * (1 - M) / M - u) * L / one_minus_L],
                  [(1 - a - u) * M / one_minus_M, q, 1 - q - (1 - a - u) * M / one_minus_M]]
        in if norm_kw
           then (let mx' = map (map (max 0)) mx
                 in map (\<lambda>row. map (\<lambda>e. e / sum_list row) row) mx')
           else mx)"

definition smallTimeTransitionMatrix :: "solver \<Rightarrow> real \<Rightarrow> indelParams \<Rightarrow> matrix" where
  "smallTimeTransitionMatrix solve t indelParams =
     (let abuq = integrateCounts solve t indelParams
      in transitionMatrixFromCounts t indelParams abuq True)"

definition largeTimeTransitionMatrix :: "real \<Rightarrow> indelParams \<Rightarrow> matrix" where
  "largeTimeTransitionMatrix t indelParams =
     (case indelParams of (lam, mu, x, y) \<Rightarrow>
        let g = 1 - lm t lam x;
            r = 1 - lm t mu y
        in [[(1 - g) * (1 - r), g, (1 - g) * r],
            [(1 - g) * (1 - r), g, (1 - g) * r],
            [1 - r, 0, r]])"

definition tMin :: real where
  "tMin = 1 / 1000"

definition transitionMatrix :: "solver \<Rightarrow> real \<Rightarrow> indelParams \<Rightarrow> nat \<Rightarrow> matrix" where
  "transitionMatrix solve t indelParams alphabetSize =
     (let tSafe = max t tMin
      in if 0 < t
         then (if alignmentIsProbablyUndetectable tSafe indelParams alphabetSize
               then largeTimeTransitionMatrix tSafe indelParams
               else smallTimeTransitionMatrix solve tSafe indelParams)
         else zeroTimeTransitionMatrix indelParams)"

text \<open>A 3 by 3 matrix with non-negative entries whose rows each sum to 1.\<close>

definition row_stochastic3 :: "matrix \<Rightarrow> bool" where
  "row_stochastic3 m =
     (length m = 3 \<and> list_all (\<lambda>row. length row = 3 \<and> sum_list row = 1 \<and> list_all (\<lambda>e. 0 \<le> e) row) m)"

text \<open>The parameter ranges of the data model.\<close>

definition indelParamsValid :: "indelParams \<Rightarrow> bool" where
  "indelParamsValid indelParams =
     (case indelParams of (lam, mu, x, y) \<Rightarrow> 0 \<le> lam \<and> 0 \<le> mu \<and> 0 \<le> x \<and> x < 1 \<and> 0 \<le> y \<and> y < 1)"

section \<open>Substitution likelihood by pruning (likelihood.py)\<close>

text \<open>
  Arrays are lists, a matrix is the list of its rows, and an array of shape (R, C, A)
  is a list of R lists of C lists of length A. Rates, branch lengths, grid times and
  transition matrices are real, as above; the likelihoods and log-likelihoods of the
  pruning also take the values plus and minus infinity and not-a-number. The model
  covers a substitution model without hidden rate categories (the leading axes \<open>H\<close>
  of the source are empty).
\<close>

definition alignmentIsValid :: "int list list \<Rightarrow> int \<Rightarrow> error + unit" where
  "alignmentIsValid alignment alphabetSize =
     (if \<not> list_all (list_all (\<lambda>tok. - 1 \<le> tok)) alignment then Inl AssertionError
      else if \<not> list_all (list_all (\<lambda>tok. tok < alphabetSize)) alignment then Inl AssertionError
      else Inr ())"

text \<open>
  \<open>parentIndex <= jnp.arange(alignmentRows)\<close> compares elementwise when the two
  lengths agree, broadcasts when one of them is 1, and is a type error otherwise.
\<close>

definition le_arange :: "int list \<Rightarrow> nat \<Rightarrow> error + bool" where
  "le_arange parentIndex alignmentRows =
     (if length parentIndex = alignmentRows
      then Inr (list_all (\<lambda>(p, i). p \<le> int i) (zip parentIndex [0..<alignmentRows]))
      else if length parentIndex = 1
      then Inr (list_all (\<lambda>i. hd parentIndex \<le> int i) [0..<alignmentRows])
      else if alignmentRows = 1
      then Inr (list_all (\<lambda>p. p \<le> 0) parentIndex)
      else Inl TypeError)"

definition treeIsValid :: "real list \<Rightarrow> int list \<Rightarrow> nat \<Rightarrow> error + unit" where
  "treeIsValid distanceToParent parentIndex alignmentRows =
     (if \<not> list_all (\<lambda>d. 0 \<le> d) distanceToParent then Inl AssertionError
      else if \<not> list_all (\<lambda>p. - 1 \<le> p) (drop 1 parentIndex) then Inl AssertionError
      else (case le_arange parentIndex alignmentRows of
              Inl e \<Rightarrow> Inl e
            | Inr ok \<Rightarrow> if ok then Inr () else Inl AssertionError))"

subsection \<open>Matrix exponential\<close>

text \<open>
  \<open>jax.scipy.linalg.expm\<close> is a library function; it is modelled by the function it
  computes, the sum of the exponential series of a square matrix.
\<close>

definition eye :: "nat \<Rightarrow> matrix" where
  "eye n = map (\<lambda>i. map (\<lambda>j. if i = j then 1 else 0) [0..<n]) [0..<n]"

definition mat_mul :: "matrix \<Rightarrow> matrix \<Rightarrow> matrix" where
  "mat_mul X Y =
     map (\<lambda>row. map (\<lambda>j. sum_list (map2 (*) row (map (\<lambda>r. r ! j) Y))) [0..<length X]) X"

fun mat_pow :: "matrix \<Rightarrow> nat \<Rightarrow> matrix" where
  "mat_pow X 0 = eye (length X)"
| "mat_pow X (Suc k) = mat_mul X (mat_pow X k)"

definition expm :: "matrix \<Rightarrow> matrix" where
  "expm X =
     map (\<lambda>i. map (\<lambda>j. (\<Sum>k. mat_pow X k ! i ! j / fact k)) [0..<length X]) [0..<length X]"

definition computeSubMatrixForBranchLengths :: "real list \<Rightarrow> matrix \<Rightarrow> error + matrix list" where
  "computeSubMatrixForBranchLengths distanceToParent subRate =
     (if \<not> list_all (\<lambda>row. length row = length subRate) subRate then Inl AssertionError
      else Inr (map (\<lambda>d. expm (map (map (\<lambda>q. q * d)) subRate)) distanceToParent))"

subsection \<open>Indexing\<close>

text \<open>
  Indexing an array by an integer follows JAX: a negative index counts from the end;
  a read out of bounds is clamped to the nearest valid position; an update out of
  bounds is dropped.
\<close>

definition norm_index :: "nat \<Rightarrow> int \<Rightarrow> int" where
  "norm_index n i = (if i < 0 then i + int n else i)"

definition jax_get :: "'a list \<Rightarrow> int \<Rightarrow> 'a" where
  "jax_get xs i = xs ! nat (min (max (norm_index (length xs) i) 0) (int (length xs) - 1))"

definition jax_at :: "'a list \<Rightarrow> int \<Rightarrow> ('a \<Rightarrow> 'a) \<Rightarrow> 'a list" where
  "jax_at xs i f =
     (let j = norm_index (length xs) i
      in if 0 \<le> j \<and> j < int (length xs) then xs[nat j := f (xs ! nat j)] else xs)"

subsection \<open>Discretized branch lengths\<close>

type_synonym discretizationParams = "real \<times> real \<times> nat"

definition defaultDiscretizationParams :: discretizationParams where
  "defaultDiscretizationParams = (1 / 1000, 10, 400)"

text \<open>\<open>jnp.geomspace\<close>: \<open>num\<close> points in geometric progression from \<open>start\<close> to \<open>stop\<close>.\<close>

definition geomspace :: "real \<Rightarrow> real \<Rightarrow> nat \<Rightarrow> real list" where
  "geomspace start stop num =
     map (\<lambda>i. start * (stop / start) powr (real i / real (num - 1))) [0..<num]"

definition getDiscretizedTimes :: "discretizationParams \<Rightarrow> real list" where
  "getDiscretizedTimes discretizationParams =
     (case discretizationParams of (tMin', tMax', nSteps) \<Rightarrow> 0 # geomspace tMin' tMax' nSteps)"

definition computeSubMatrixForDiscretizedTimes ::
  "matrix \<Rightarrow> discretizationParams \<Rightarrow> error + matrix list" where
  "computeSubMatrixForDiscretizedTimes subRate discretizationParams =
     (let t = getDiscretizedTimes discretizationParams
      in computeSubMatrixForBranchLengths t subRate)"

text \<open>
  \<open>jnp.digitize\<close> on increasing bins is \<open>searchsorted\<close> from the right: the number
  of bins that are at most \<open>x\<close>. On decreasing bins it is the length minus that number
  for the reversed bins.
\<close>

definition searchsorted_right :: "real list \<Rightarrow> real \<Rightarrow> nat" where
  "searchsorted_right bins x = length (filter (\<lambda>b. b \<le> x) bins)"

definition digitize :: "real \<Rightarrow> real list \<Rightarrow> nat" where
  "digitize x bins =
     (if bins = [] then 0
      else if hd bins \<le> last bins then searchsorted_right bins x
      else length bins - searchsorted_right (rev bins) x)"

definition clip :: "real \<Rightarrow> real \<Rightarrow> real \<Rightarrow> real" where
  "clip t lo hi = min (max t lo) hi"

definition discretizeBranchLength :: "real \<Rightarrow> discretizationParams \<Rightarrow> nat" where
  "discretizeBranchLength t discretizationParams =
     (case discretizationParams of (tMin', tMax', nSteps) \<Rightarrow>
        if t = 0 then 0
        else 1 + digitize (clip t tMin' tMax') (geomspace tMin' tMax' nSteps))"

text \<open>
  The source calls \<open>discretizeBranchLength(t)\<close> without handing on its own
  \<open>discretizationParams\<close>: the index is computed on the default grid whatever
  that argument is.
\<close>

definition computeSubMatrixForDiscretizedBranchLengths ::
  "real list \<Rightarrow> matrix list \<Rightarrow> discretizationParams \<Rightarrow> matrix list" where
  "computeSubMatrixForDiscretizedBranchLengths t discreteTimeSubMatrix discretizationParams =
     map (\<lambda>ti. jax_get discreteTimeSubMatrix
                 (int (discretizeBranchLength ti defaultDiscretizationParams))) t"

text \<open>The points of the default geometric grid, used to state results about it.\<close>

definition grid_point :: "nat \<Rightarrow> real" where
  "grid_point k = 1 / 1000 * (10 / (1 / 1000)) powr (real k / real (400 - 1))"

subsection \<open>Pruning\<close>

text \<open>
  The pruning divides by a maximum that is zero, and takes the logarithm of zero, when
  a column has likelihood zero. Its numbers are therefore modelled as real numbers
  extended by the two infinities and by not-a-number, with the IEEE results of each
  operation written out; rounding, overflow and underflow are not modelled. Zeros
  carry no sign: a zero divisor counts as \<open>+0\<close>. With transition probabilities that
  are not negative no likelihood is negative, and the sign of a zero divisor is never
  consulted.
\<close>

datatype fval = Num real | PInf | NInf | NaN

fun fadd :: "fval \<Rightarrow> fval \<Rightarrow> fval" where
  "fadd (Num a) (Num b) = Num (a + b)"
| "fadd (Num a) PInf = PInf"
| "fadd (Num a) NInf = NInf"
| "fadd PInf (Num b) = PInf"
| "fadd PInf PInf = PInf"
| "fadd PInf NInf = NaN"
| "fadd NInf (Num b) = NInf"
| "fadd NInf NInf = NInf"
| "fadd NInf PInf = NaN"
| "fadd NaN _ = NaN"
| "fadd _ NaN = NaN"

text \<open>The product of an infinity and a number has the sign of the product; with zero it is not a number.\<close>

definition inf_times :: "bool \<Rightarrow> real \<Rightarrow> fval" where
  "inf_times positive a =
     (if a = 0 then NaN else if (0 < a) = positive then PInf else NInf)"

fun fmul :: "fval \<Rightarrow> fval \<Rightarrow> fval" where
  "fmul (Num a) (Num b) = Num (a * b)"
| "fmul (Num a) PInf = inf_times True a"
| "fmul (Num a) NInf = inf_times False a"
| "fmul PInf (Num b) = inf_times True b"
| "fmul NInf (Num b) = inf_times False b"
| "fmul PInf PInf = PInf"
| "fmul PInf NInf = NInf"
| "fmul NInf PInf = NInf"
| "fmul NInf NInf = PInf"
| "fmul NaN _ = NaN"
| "fmul _ NaN = NaN"

fun fdiv :: "fval \<Rightarrow> fval \<Rightarrow> fval" where
  "fdiv (Num a) (Num b) =
     (if b \<noteq> 0 then Num (a / b)
      else if 0 < a then PInf
      else if a < 0 then NInf
      else NaN)"
| "fdiv (Num a) PInf = Num 0"
| "fdiv (Num a) NInf = Num 0"
| "fdiv PInf (Num b) = (if b < 0 then NInf else PInf)"
| "fdiv NInf (Num b) = (if b < 0 then PInf else NInf)"
| "fdiv PInf PInf = NaN"
| "fdiv PInf NInf = NaN"
| "fdiv NInf PInf = NaN"
| "fdiv NInf NInf = NaN"
| "fdiv NaN _ = NaN"
| "fdiv _ NaN = NaN"

text \<open>The maximum hands a not-a-number on.\<close>

fun fmax :: "fval \<Rightarrow> fval \<Rightarrow> fval" where
  "fmax (Num a) (Num b) = Num (max a b)"
| "fmax (Num a) PInf = PInf"
| "fmax (Num a) NInf = Num a"
| "fmax PInf (Num b) = PInf"
| "fmax PInf PInf = PInf"
| "fmax PInf NInf = PInf"
| "fmax NInf (Num b) = Num b"
| "fmax NInf PInf = PInf"
| "fmax NInf NInf = NInf"
| "fmax NaN _ = NaN"
| "fmax _ NaN = NaN"

fun flog :: "fval \<Rightarrow> fval" where
  "flog (Num a) = (if 0 < a then Num (ln a) else if a = 0 then NInf else NaN)"
| "flog PInf = PInf"
| "flog NInf = NaN"
| "flog NaN = NaN"

text \<open>The sum of a list, from the right, as \<open>sum_list\<close> is; an empty sum is 0.\<close>

definition fsum :: "fval list \<Rightarrow> fval" where
  "fsum xs = foldr fadd xs (Num 0)"

definition tokenLookup :: "nat \<Rightarrow> matrix" where
  "tokenLookup A = replicate A 1 # eye A"

text \<open>\<open>jnp.einsum('ij,cj->ci', m, l)\<close> is \<open>map (matvec m) l\<close>.\<close>

definition matvec :: "matrix \<Rightarrow> fval list \<Rightarrow> fval list" where
  "matvec m v = map (\<lambda>row. fsum (map2 (\<lambda>p x. fmul (Num p) x) row v)) m"

fun list_max :: "fval list \<Rightarrow> fval" where
  "list_max [] = NInf"
| "list_max (x # xs) = fold fmax xs x"

text \<open>
  One pass of the loop body for the node \<open>child\<close>. The state is the likelihood array
  of shape (R, C, A) and the vector \<open>logNorm\<close> of length C.
\<close>

definition prune_step ::
  "int list \<Rightarrow> matrix list \<Rightarrow> nat \<Rightarrow> fval list list list \<times> fval list \<Rightarrow>
   fval list list list \<times> fval list" where
  "prune_step parentIndex subMatrix child state =
     (case state of (likelihood, logNorm) \<Rightarrow>
        let parent = parentIndex ! child;
            msg = map (matvec (subMatrix ! child)) (jax_get likelihood (int child));
            likelihood1 = jax_at likelihood parent (\<lambda>row. map2 (map2 fmul) row msg);
            maxLike = map list_max (jax_get likelihood1 parent);
            likelihood2 = jax_at likelihood1 parent (\<lambda>row. map2 (\<lambda>v m. map (\<lambda>e. fdiv e m) v) row maxLike);
            logNorm' = map2 fadd logNorm (map flog maxLike)
        in (likelihood2, logNorm'))"

text \<open>
  \<open>subLogLikeForMatrices\<close>. The alphabet size \<open>A\<close> is read off \<open>rootProb\<close>, whose
  length the source asserts to be that of the rows of the matrices. An alignment
  without rows has no row 0 to read, and a maximum over an empty alphabet axis is an
  error. The result holds one value per column: a number, an infinity or
  not-a-number.
\<close>

definition subLogLikeForMatrices ::
  "int list list \<Rightarrow> int list \<Rightarrow> matrix list \<Rightarrow> real list \<Rightarrow> error + fval list" where
  "subLogLikeForMatrices alignment parentIndex subMatrix rootProb =
     (let R = length subMatrix;
          A = length rootProb;
          C = (if alignment = [] then 0 else length (hd alignment))
      in if length parentIndex \<noteq> R then Inl AssertionError
         else if \<not> list_all (\<lambda>m. length m = A \<and> list_all (\<lambda>row. length row = A) m) subMatrix
         then Inl AssertionError
         else if alignment = [] then Inl IndexError
         else if A = 0 \<and> 2 \<le> R then Inl ValueError
         else
           (let likelihood = map (map (\<lambda>tok. map Num (jax_get (tokenLookup A) (tok + 1)))) alignment;
                logNorm = replicate C (Num 0);
                (likelihood', logNorm') =
                   fold (prune_step parentIndex subMatrix) (rev [1..<R]) (likelihood, logNorm)
            in Inr (map2 fadd logNorm'
                      (map (\<lambda>v. flog (fsum (map2 (\<lambda>x p. fmul x (Num p)) v rootProb)))
                         (jax_get likelihood' 0)))))"

definition subLogLike ::
  "int list list \<Rightarrow> real list \<Rightarrow> int list \<Rightarrow> matrix \<Rightarrow> real list \<Rightarrow> error + fval list" where
  "subLogLike alignment distanceToParent parentIndex subRate rootProb =
     (case computeSubMatrixForBranchLengths distanceToParent subRate of
        Inl e \<Rightarrow> Inl e
      | Inr subMatrix \<Rightarrow> subLogLikeForMatrices alignment parentIndex subMatrix rootProb)"

subsection \<open>Padding\<close>

fun bit_length :: "nat \<Rightarrow> nat" where
  "bit_length n = (if n = 0 then 0 else Suc (bit_length (n div 2)))"

declare bit_length.simps [simp del]

text \<open>
  \<open>padDimension\<close>: for the multiplier 2 the next power of two, computed on integers
  (\<open>(len - 1).bit_length()\<close> is the bit length of the absolute value); otherwise the
  least power of the multiplier that is at least \<open>len\<close>, rounded up, computed with
  logarithms.
\<close>

definition padDimension :: "nat \<Rightarrow> real \<Rightarrow> int" where
  "padDimension len multiplier =
     (if multiplier = 2
      then 2 ^ bit_length (nat \<bar>int len - 1\<bar>)
      else \<lceil>multiplier powr real_of_int \<lceil>ln (real len) / ln multiplier\<rceil>\<rceil>)"

text \<open>
  \<open>padAlignment\<close>. Appending columns concatenates the alignment with a block of
  \<open>nRows\<close> rows, which fails unless the alignment has that many rows by then.
\<close>

definition padAlignment ::
  "int list list \<Rightarrow> int list \<Rightarrow> real list \<Rightarrow> int option \<Rightarrow> int option \<Rightarrow> real \<Rightarrow> real \<Rightarrow>
   error + int list list \<times> int list \<times> real list" where
  "padAlignment alignment parentIndex distanceToParent nRows nCols colMultiplier rowMultiplier =
     (let unpaddedRows = length alignment;
          unpaddedCols = (if alignment = [] then 0 else length (hd alignment));
          nCols' = (case nCols of None \<Rightarrow> padDimension unpaddedCols colMultiplier | Some n \<Rightarrow> n);
          nRows' = (case nRows of None \<Rightarrow> padDimension unpaddedRows rowMultiplier | Some n \<Rightarrow> n);
          (alignment1, distanceToParent1, parentIndex1) =
            (if int unpaddedRows < nRows'
             then (alignment @ replicate (nat nRows' - unpaddedRows) (replicate unpaddedCols (- 1)),
                   distanceToParent @ replicate (nat nRows' - unpaddedRows) 0,
                   parentIndex @ map int [unpaddedRows..<nat nRows'])
             else (alignment, distanceToParent, parentIndex))
      in if int unpaddedCols < nCols'
         then (if nRows' < 0 then Inl ValueError
               else if int (length alignment1) \<noteq> nRows' then Inl TypeError
               else Inr (map (\<lambda>row. row @ replicate (nat nCols' - unpaddedCols) (- 1)) alignment1,
                         parentIndex1, distanceToParent1))
         else Inr (alignment1, parentIndex1, distanceToParent1))"

text \<open>The square zero matrix.\<close>

definition zeros :: "nat \<Rightarrow> matrix" where
  "zeros n = replicate n (replicate n 0)"

subsection \<open>Notions used to state and prove padding invariance\<close>

text \<open>The row written to the parent, and the maxima it is divided by.\<close>

definition parent_row :: "matrix \<Rightarrow> fval list list \<Rightarrow> fval list list \<Rightarrow> fval list list" where
  "parent_row m prow crow = map2 (map2 fmul) prow (map (matvec m) crow)"

definition rescaled :: "fval list list \<Rightarrow> fval list list" where
  "rescaled row = map2 (\<lambda>v m. map (\<lambda>e. fdiv e m) v) row (map list_max row)"

text \<open>Restriction of a loop state to the first R rows and the first C columns.\<close>

definition restrict_state ::
  "nat \<Rightarrow> nat \<Rightarrow> fval list list list \<times> fval list \<Rightarrow> fval list list list \<times> fval list" where
  "restrict_state R C state = (case state of (L, logNorm) \<Rightarrow> (map (take C) (take R L), take C logNorm))"

text \<open>The final line of the pruning: the log-likelihood per column read off the root row.\<close>

definition root_loglike :: "real list \<Rightarrow> fval list list list \<times> fval list \<Rightarrow> fval list" where
  "root_loglike rootProb state =
     (case state of (L, logNorm) \<Rightarrow>
        map2 fadd logNorm
          (map (\<lambda>v. flog (fsum (map2 (\<lambda>x p. fmul x (Num p)) v rootProb))) (jax_get L 0)))"

text \<open>The initial likelihood array, one indicator or all-ones vector per cell.\<close>

definition init_likelihood :: "nat \<Rightarrow> int list list \<Rightarrow> fval list list list" where
  "init_likelihood A alignment =
     map (map (\<lambda>tok. map Num (jax_get (tokenLookup A) (tok + 1)))) alignment"

text \<open>
  Well-formed input of \<open>subLogLike\<close>: a rectangular alignment with at least one row,
  one branch length and one parent index per row, every node but the first with its
  parent among the rows, a square rate matrix over a non-empty alphabet with one
  root frequency per letter, and transition probabilities \<open>expm (subRate * d)\<close> that
  are not negative on any branch, as those of a rate matrix of the data model are.
\<close>

definition valid_input :: "int list list \<Rightarrow> real list \<Rightarrow> int list \<Rightarrow> matrix \<Rightarrow> real list \<Rightarrow> bool" where
  "valid_input alignment distanceToParent parentIndex subRate rootProb =
     (alignment \<noteq> [] \<and>
      list_all (\<lambda>row. length row = length (hd alignment)) alignment \<and>
      length distanceToParent = length alignment \<and>
      length parentIndex = length alignment \<and>
      list_all (\<lambda>i. 0 \<le> parentIndex ! i \<and> parentIndex ! i < int (length alignment))
        [1..<length alignment] \<and>
      subRate \<noteq> [] \<and>
      list_all (\<lambda>row. length row = length subRate) subRate \<and>
      length rootProb = length subRate \<and>
      list_all (\<lambda>d. list_all (list_all (\<lambda>p. 0 \<le> p)) (expm (map (map (\<lambda>q. q * d)) subRate)))
        distanceToParent)"

section \<open>Properties of the bounded optimisation loop\<close>

declare while_loop.simps [simp del]

lemma bounded_run_stop: "\<not> cond v \<Longrightarrow> bounded_run cond body n v = v"
  by (cases n) simp_all

lemma bounded_run_add:
  "bounded_run cond body (m + n) v = bounded_run cond body n (bounded_run cond body m v)"
  by (induction m arbitrary: v) (simp_all add: bounded_run_stop)

lemma while_loop_pow2:
  "while_loop cond body (cond v, v) (2 ^ k) =
     Some (cond (bounded_run cond body (2 ^ k) v), bounded_run cond body (2 ^ k) v)"
proof (induction k arbitrary: v)
  case 0
  show ?case by (simp add: while_loop.simps Let_def)
next
  case (Suc k)
  let ?n = "(2::int) ^ Suc k"
  let ?v1 = "bounded_run cond body (2 ^ k) v"
  have "even ?n" by simp
  then have n1: "?n \<noteq> 1" by (metis odd_one)
  have n0: "\<not> ?n \<le> 0" by simp
  have half: "?n div 2 = 2 ^ k" by simp
  have first: "(if fst (cond v, v) then while_loop cond body (cond v, v) (2 ^ k) else Some (cond v, v))
      = Some (cond ?v1, ?v1)"
    using Suc.IH [of v] by (cases "cond v") (simp_all add: bounded_run_stop)
  have second: "(if fst (cond ?v1, ?v1) then while_loop cond body (cond ?v1, ?v1) (2 ^ k) else Some (cond ?v1, ?v1))
      = Some (cond (bounded_run cond body (2 ^ k) ?v1), bounded_run cond body (2 ^ k) ?v1)"
    using Suc.IH [of ?v1] by (cases "cond ?v1") (simp_all add: bounded_run_stop)
  have run: "bounded_run cond body (2 ^ Suc k) v = bounded_run cond body (2 ^ k) ?v1"
    using bounded_run_add [of cond body "2 ^ k" "2 ^ k" v] by (simp add: mult_2)
  have "while_loop cond body (cond v, v) ?n =
      (case (if fst (cond v, v) then while_loop cond body (cond v, v) (2 ^ k) else Some (cond v, v)) of
         None \<Rightarrow> None
       | Some data1 \<Rightarrow> (if fst data1 then while_loop cond body data1 (2 ^ k) else Some data1))"
    by (subst while_loop.simps) (simp only: n1 n0 if_False half)
  also have "\<dots> = Some (cond (bounded_run cond body (2 ^ k) ?v1), bounded_run cond body (2 ^ k) ?v1)"
    by (simp only: first option.case second)
  finally show ?case by (simp only: run)
qed

lemma pow2_and_pred: "(2::int) ^ k AND (2 ^ k - 1) = 0"
proof -
  have "(2::int) ^ k AND mask k = 0"
    by (rule bit_eqI) (auto simp add: bit_and_iff bit_exp_iff bit_mask_iff)
  then show ?thesis by (simp add: mask_eq_exp_minus_1)
qed

lemma and_pred_pow2:
  "0 < (n::int) \<Longrightarrow> n AND (n - 1) = 0 \<Longrightarrow> \<exists>k. n = 2 ^ k"
proof (induction "nat n" arbitrary: n rule: less_induct)
  case less
  show ?case
  proof (cases "even n")
    case True
    then obtain m where m: "n = 2 * m" by (elim evenE)
    with less.prems have mpos: "0 < m" by simp
    have "(2 * m - 1) div 2 = m - 1" by simp
    then have "n AND (n - 1) = 2 * (m AND (m - 1))"
      using m by (simp add: and_int.rec [of "2 * m"])
    with less.prems have "m AND (m - 1) = 0" by simp
    moreover have "nat m < nat n" using m mpos by simp
    ultimately obtain k where "m = 2 ^ k" using less.hyps mpos by blast
    then have "n = 2 ^ Suc k" using m by simp
    then show ?thesis by blast
  next
    case False
    then obtain m where m: "n = 2 * m + 1" by (elim oddE)
    then have "n AND (n - 1) = 2 * m"
      by (simp add: and_int.rec [of "2 * m + 1"])
    with less.prems have "m = 0" by simp
    then have "n = 2 ^ 0" using m by simp
    then show ?thesis by blast
  qed
qed


lemma bounded_run_iters:
  "bounded_run cond body n v = (body ^^ loop_iters cond body n v) v"
  by (induction n arbitrary: v) (simp_all add: funpow_swap1)

lemma score_ge_refl: "score_ge a a"
  by (simp add: score_ge_def)

lemma not_gt_score_ge: "\<not> score_gt a b \<Longrightarrow> score_ge b a"
  by (cases a; cases b) (auto simp add: score_ge_def)

lemma score_gt_imp_ge: "score_gt a b \<Longrightarrow> score_ge a b"
  by (simp add: score_ge_def)

lemma score_ge_trans: "score_ge a b \<Longrightarrow> score_ge b c \<Longrightarrow> score_ge a c"
  by (cases a; cases b; cases c) (auto simp add: score_ge_def)

lemma bounded_while_loop_pow2:
  "bounded_while_loop cond body v (2 ^ e) = Some (Inr (bounded_run cond body (2 ^ e) v))"
proof -
  have "\<not> (2::int) ^ e < 0" "(2::int) ^ e \<noteq> 0" by simp_all
  then show ?thesis
    by (simp add: bounded_while_loop_def pow2_and_pred while_loop_pow2)
qed

lemma body_iter_current:
  "fst (snd ((body_fun sf uf ^^ j) (init_loop_val sf s0))) = (sf (visited uf s0 j), visited uf s0 j)"
proof (induction j)
  case 0
  show ?case by (simp add: init_loop_val_def visited_def Let_def)
next
  case (Suc j)
  obtain p c cs b bs where lv: "(body_fun sf uf ^^ j) (init_loop_val sf s0) = (p, (c, cs), (b, bs))"
    by (metis prod.collapse)
  with Suc have cur: "cs = visited uf s0 j" by simp
  have step: "(body_fun sf uf ^^ Suc j) (init_loop_val sf s0) = body_fun sf uf (p, (c, cs), (b, bs))"
    by (simp add: lv)
  show ?case
    unfolding step by (simp add: body_fun_def Let_def visited_def cur)
qed

lemma body_iter_best:
  "(\<forall>i\<le>j. score_ge (fst (snd (snd ((body_fun sf uf ^^ j) (init_loop_val sf s0))))) (sf (visited uf s0 i))) \<and>
   (\<exists>i\<le>j. snd (snd ((body_fun sf uf ^^ j) (init_loop_val sf s0))) = (sf (visited uf s0 i), visited uf s0 i))"
proof (induction j)
  case 0
  show ?case by (simp add: init_loop_val_def visited_def score_ge_refl Let_def)
next
  case (Suc j)
  obtain p c cs b bs where lv: "(body_fun sf uf ^^ j) (init_loop_val sf s0) = (p, (c, cs), (b, bs))"
    by (metis prod.collapse)
  have cur: "cs = visited uf s0 j"
    using body_iter_current [where sf = sf and uf = uf and j = j and ?s0.0 = s0] by (simp add: lv)
  have nxt: "uf cs = visited uf s0 (Suc j)"
    by (simp add: cur visited_def)
  have step: "(body_fun sf uf ^^ Suc j) (init_loop_val sf s0) = body_fun sf uf (p, (c, cs), (b, bs))"
    by (simp add: lv)
  from Suc lv have old: "\<forall>i\<le>j. score_ge b (sf (visited uf s0 i))"
    and ex: "\<exists>i\<le>j. (b, bs) = (sf (visited uf s0 i), visited uf s0 i)" by simp_all
  show ?case
  proof (cases "score_gt (sf (uf cs)) b")
    case True
    then have best: "snd (snd ((body_fun sf uf ^^ Suc j) (init_loop_val sf s0))) = (sf (uf cs), uf cs)"
      unfolding step by (simp add: body_fun_def Let_def)
    have "score_ge (sf (uf cs)) (sf (visited uf s0 i))" if "i \<le> Suc j" for i
    proof (cases "i = Suc j")
      case True
      then show ?thesis by (simp add: nxt score_ge_refl)
    next
      case False
      with that have "i \<le> j" by simp
      with old have "score_ge b (sf (visited uf s0 i))" by simp
      with \<open>score_gt (sf (uf cs)) b\<close> show ?thesis
        by (meson score_ge_trans score_gt_imp_ge)
    qed
    moreover have "\<exists>i\<le>Suc j. (sf (uf cs), uf cs) = (sf (visited uf s0 i), visited uf s0 i)"
      using nxt by auto
    ultimately show ?thesis by (simp only: best fst_conv) blast
  next
    case False
    then have best: "snd (snd ((body_fun sf uf ^^ Suc j) (init_loop_val sf s0))) = (b, bs)"
      unfolding step by (simp add: body_fun_def Let_def)
    have "score_ge b (sf (visited uf s0 i))" if "i \<le> Suc j" for i
    proof (cases "i = Suc j")
      case True
      with False show ?thesis by (simp add: nxt [symmetric] not_gt_score_ge)
    next
      case False
      with that have "i \<le> j" by simp
      with old show ?thesis by simp
    qed
    moreover have "\<exists>i\<le>Suc j. (b, bs) = (sf (visited uf s0 i), visited uf s0 i)"
      using ex le_SucI by blast
    ultimately show ?thesis by (simp only: best fst_conv) blast
  qed
qed


text \<open>
  Claim C6. For a power-of-two \<open>max_steps\<close>, \<open>bounded_optimize\<close> returns a pair
  \<open>(best_score, best_state)\<close> such that \<open>best_score\<close> is at least the score of
  the initial state and at least the score of every state the loop passed through
  (the states \<open>visited update_fun init_state j\<close> for \<open>j\<close> up to the number of
  iterations that ran), and the returned pair is the score and state of one of those
  states, the initial one included.
\<close>

theorem bounded_optimize_best:
  "\<exists>best_score best_state.
     bounded_optimize score_fun update_fun init_state (2 ^ e) min_inc = Some (Inr (best_score, best_state)) \<and>
     score_ge best_score (score_fun init_state) \<and>
     (\<forall>j \<le> loop_iters (cond_fun min_inc) (body_fun score_fun update_fun) (2 ^ e)
                (init_loop_val score_fun init_state).
        score_ge best_score (score_fun (visited update_fun init_state j))) \<and>
     (\<exists>j \<le> loop_iters (cond_fun min_inc) (body_fun score_fun update_fun) (2 ^ e)
                (init_loop_val score_fun init_state).
        (best_score, best_state) =
        (score_fun (visited update_fun init_state j), visited update_fun init_state j))"
proof -
  let ?c = "cond_fun min_inc" and ?b = "body_fun score_fun update_fun"
  let ?v0 = "init_loop_val score_fun init_state"
  let ?k = "loop_iters ?c ?b (2 ^ e) ?v0"
  let ?r = "(?b ^^ ?k) ?v0"
  obtain p cur best_score best_state where r: "?r = (p, cur, (best_score, best_state))"
    by (metis prod.collapse)
  have "bounded_while_loop ?c ?b ?v0 (2 ^ e) = Some (Inr ?r)"
    by (simp only: bounded_while_loop_pow2 bounded_run_iters)
  then have ret: "bounded_optimize score_fun update_fun init_state (2 ^ e) min_inc =
      Some (Inr (best_score, best_state))"
    by (simp add: bounded_optimize_def r)
  from body_iter_best [where j = ?k and sf = score_fun and uf = update_fun and ?s0.0 = init_state]
  have all: "\<forall>i\<le>?k. score_ge best_score (score_fun (visited update_fun init_state i))"
    and ex: "\<exists>i\<le>?k. (best_score, best_state) =
        (score_fun (visited update_fun init_state i), visited update_fun init_state i)"
    by (simp_all add: r)
  from all have "score_ge best_score (score_fun (visited update_fun init_state 0))" by blast
  then have "score_ge best_score (score_fun init_state)" by (simp add: visited_def)
  with ret all ex show ?thesis by blast
qed

text \<open>
  With the score of a natural number being the number itself and the successor as
  update, two iterations run for \<open>max_steps = 2\<close>, and the best score is at least
  the score of the state reached after the second one.
\<close>

theorem bounded_optimize_best_witness:
  "loop_iters (cond_fun (Fin 0)) (body_fun (\<lambda>n. Fin (real n)) Suc) (2 ^ 1) (init_loop_val (\<lambda>n. Fin (real n)) 0) = 2 \<and>
   (\<exists>best_score best_state.
      bounded_optimize (\<lambda>n. Fin (real n)) Suc 0 (2 ^ 1) (Fin 0) = Some (Inr (best_score, best_state)) \<and>
      score_ge best_score (Fin (real (visited Suc 0 2))))"
proof -
  have k: "loop_iters (cond_fun (Fin 0)) (body_fun (\<lambda>n. Fin (real n)) Suc) (2 ^ 1) (init_loop_val (\<lambda>n. Fin (real n)) 0) = 2"
    by (simp add: numeral_2_eq_2 cond_fun_def body_fun_def init_loop_val_def Let_def)
  show ?thesis
    using bounded_optimize_best [of "\<lambda>n. Fin (real n)" Suc 0 1 "Fin 0"] unfolding k by (simp add: k) blast 
qed


lemma not_pow2_three: "\<not> (\<exists>k. (3::int) = 2 ^ k)"
proof
  assume "\<exists>k. (3::int) = 2 ^ k"
  then obtain k where k: "(3::int) = 2 ^ k" ..
  show False
  proof (cases k)
    case 0
    with k show False by simp
  next
    case (Suc m)
    have "even ((2::int) ^ Suc m)" by simp
    with k Suc have "even (3::int)" by simp
    then show False by simp
  qed
qed

text \<open>
  Claim C7. With \<open>max_steps = 0\<close>, \<open>bounded_optimize\<close> returns the initial state
  paired with its own score. With a negative \<open>max_steps\<close>, or a positive one that is
  not a power of two, it raises \<open>ValueError\<close>: no loop value is computed.
\<close>

theorem bounded_optimize_max_steps:
  "bounded_optimize score_fun update_fun init_state 0 min_inc =
     Some (Inr (score_fun init_state, init_state)) \<and>
   (max_steps < 0 \<or> (0 < max_steps \<and> \<not> (\<exists>k. max_steps = 2 ^ k)) \<longrightarrow>
      bounded_optimize score_fun update_fun init_state max_steps min_inc = Some (Inl ValueError))"
proof (intro conjI impI)
  show "bounded_optimize score_fun update_fun init_state 0 min_inc =
     Some (Inr (score_fun init_state, init_state))"
    by (simp add: bounded_optimize_def bounded_while_loop_def init_loop_val_def Let_def)
next
  assume bad: "max_steps < 0 \<or> (0 < max_steps \<and> \<not> (\<exists>k. max_steps = 2 ^ k))"
  then have "bounded_while_loop (cond_fun min_inc) (body_fun score_fun update_fun)
      (init_loop_val score_fun init_state) max_steps = Some (Inl ValueError)"
  proof
    assume "max_steps < 0"
    then show ?thesis by (simp add: bounded_while_loop_def)
  next
    assume np: "0 < max_steps \<and> \<not> (\<exists>k. max_steps = 2 ^ k)"
    then have "max_steps AND (max_steps - 1) \<noteq> 0"
      using and_pred_pow2 [of max_steps] by blast
    with np show ?thesis by (simp add: bounded_while_loop_def)
  qed
  then show "bounded_optimize score_fun update_fun init_state max_steps min_inc = Some (Inl ValueError)"
    by (simp add: bounded_optimize_def)
qed

theorem bounded_optimize_max_steps_witness:
  "(0 < (3::int) \<and> \<not> (\<exists>k. (3::int) = 2 ^ k)) \<and>
   bounded_optimize (\<lambda>n. Fin (real n)) Suc 0 3 (Fin 0) = Some (Inl ValueError)"
  using bounded_optimize_max_steps [of "\<lambda>n. Fin (real n)" Suc 0 "Fin 0" 3] not_pow2_three
  by simp

text \<open>
  Claim C8, as amended. When the score of the initial state is not minus infinity and
  \<open>max_steps\<close> is a power of two (so at least 1), then for every threshold the
  predicate holds on the initial loop value, at least one iteration runs, and the loop
  returns what the remaining \<open>max_steps - 1\<close> bounded iterations make of the body
  applied to the initial loop value.
\<close>

theorem first_iteration_runs:
  "score_fun init_state \<noteq> NegInf \<Longrightarrow>
   cond_fun min_inc (init_loop_val score_fun init_state) \<and>
   bounded_while_loop (cond_fun min_inc) (body_fun score_fun update_fun)
       (init_loop_val score_fun init_state) (2 ^ e) =
     Some (Inr (bounded_run (cond_fun min_inc) (body_fun score_fun update_fun) (2 ^ e - 1)
                  (body_fun score_fun update_fun (init_loop_val score_fun init_state)))) \<and>
   1 \<le> loop_iters (cond_fun min_inc) (body_fun score_fun update_fun) (2 ^ e)
         (init_loop_val score_fun init_state)"
proof -
  assume fin: "score_fun init_state \<noteq> NegInf"
  let ?c = "cond_fun min_inc" and ?b = "body_fun score_fun update_fun"
  let ?v0 = "init_loop_val score_fun init_state"
  have c0: "?c ?v0"
    using fin by (cases "score_fun init_state") (simp_all add: cond_fun_def init_loop_val_def Let_def)
  obtain m where m: "(2::nat) ^ e = Suc m"
    by (metis not0_implies_Suc power_not_zero zero_neq_numeral)
  then have m': "m = 2 ^ e - 1" by simp
  have "bounded_run ?c ?b (2 ^ e) ?v0 = bounded_run ?c ?b m (?b ?v0)"
    by (simp only: m bounded_run.simps c0 if_True)
  moreover have "1 \<le> loop_iters ?c ?b (2 ^ e) ?v0"
    by (simp add: m c0)
  ultimately show ?thesis
    using c0 by (simp only: bounded_while_loop_pow2 m')
qed

theorem first_iteration_runs_witness:
  "Fin 5 \<noteq> NegInf \<and> cond_fun (Fin 1000) (init_loop_val (\<lambda>n. Fin 5) (0::nat)) \<and>
   bounded_while_loop (cond_fun (Fin 1000)) (body_fun (\<lambda>n. Fin 5) Suc)
       (init_loop_val (\<lambda>n. Fin 5) 0) (2 ^ 0) =
     Some (Inr (Fin 5, (Fin 5, Suc 0), (Fin 5, 0)))"
  using first_iteration_runs [of "\<lambda>n. Fin 5" "0::nat" "Fin 1000" Suc 0]
  by (simp add: body_fun_def init_loop_val_def Let_def)

text \<open>
  The claim as stated fails for \<open>max_steps = 3\<close>, which is at least 1 but is
  rejected with \<open>ValueError\<close>, and for a score function that gives minus infinity
  on the initial state: the predicate \<open>current_score > prev_score\<close> is then false at
  the start, and the loop returns the initial loop value.
\<close>

theorem first_iteration_counterexample:
  "bounded_optimize (\<lambda>n. Fin (real n)) Suc 0 3 (Fin 0) = Some (Inl ValueError) \<and>
   \<not> cond_fun (Fin 0) (init_loop_val (\<lambda>n. NegInf) (0::nat)) \<and>
   bounded_while_loop (cond_fun (Fin 0)) (body_fun (\<lambda>n. NegInf) Suc)
       (init_loop_val (\<lambda>n. NegInf) (0::nat)) 2 =
     Some (Inr (init_loop_val (\<lambda>n. NegInf) 0))"
proof -
  have "while_loop (cond_fun (Fin 0)) (body_fun (\<lambda>n. NegInf) Suc)
      (False, init_loop_val (\<lambda>n. NegInf) (0::nat)) 2 = Some (False, init_loop_val (\<lambda>n. NegInf) 0)"
    by (subst while_loop.simps) simp
  moreover have nc: "\<not> cond_fun (Fin 0) (init_loop_val (\<lambda>n. NegInf) (0::nat))"
    by (simp add: cond_fun_def init_loop_val_def Let_def)
  ultimately have "bounded_while_loop (cond_fun (Fin 0)) (body_fun (\<lambda>n. NegInf) Suc)
       (init_loop_val (\<lambda>n. NegInf) (0::nat)) 2 = Some (Inr (init_loop_val (\<lambda>n. NegInf) 0))"
    by (simp add: bounded_while_loop_def)
  moreover have "bounded_optimize (\<lambda>n. Fin (real n)) Suc 0 3 (Fin 0) = Some (Inl ValueError)"
    by (simp add: bounded_optimize_def bounded_while_loop_def)
  ultimately show ?thesis using nc by blast
qed


section \<open>Properties of the indel transition matrices\<close>

lemma normalized_row:
  fixes e1 e2 e3 :: real
  assumes "e1 + e2 + e3 = 1"
  defines "row \<equiv> map (max 0) [e1, e2, e3]"
  shows "length (map (\<lambda>e. e / sum_list row) row) = 3 \<and>
         sum_list (map (\<lambda>e. e / sum_list row) row) = 1 \<and>
         list_all (\<lambda>e. 0 \<le> e) (map (\<lambda>e. e / sum_list row) row)"
proof -
  define m1 m2 m3 where "m1 = max 0 e1" and "m2 = max 0 e2" and "m3 = max 0 e3"
  define s where "s = m1 + m2 + m3"
  have nonneg: "0 \<le> m1" "0 \<le> m2" "0 \<le> m3" by (simp_all add: m1_def m2_def m3_def)
  have "e1 \<le> m1" "e2 \<le> m2" "e3 \<le> m3" by (simp_all add: m1_def m2_def m3_def)
  with assms(1) have pos: "0 < s" unfolding s_def by linarith
  have row: "row = [m1, m2, m3]" by (simp add: row_def m1_def m2_def m3_def)
  have sum: "sum_list row = s" by (simp add: row s_def)
  have "m1 / s + m2 / s + m3 / s = (m1 + m2 + m3) / s"
    by (simp add: add_divide_distrib)
  also have "\<dots> = 1" using pos by (simp add: s_def)
  finally have one: "m1 / s + (m2 / s + m3 / s) = 1" by (simp add: add.assoc)
  have "0 \<le> m1 / s" "0 \<le> m2 / s" "0 \<le> m3 / s" using nonneg pos by simp_all
  with one show ?thesis unfolding sum by (simp add: row)
qed

lemma row2_sum:
  fixes u c w :: real
  shows "u * L / d + (1 - c * L / d) + (c - u) * L / d = 1"
  by (simp add: algebra_simps diff_divide_distrib)

lemma row3_sum:
  fixes v q w :: real
  shows "v + q + (1 - q - v) = 1"
  by simp

lemma transitionMatrixFromCounts_stochastic:
  "row_stochastic3 (transitionMatrixFromCounts t indelParams cnts True)"
proof -
  obtain lam mu x y where p: "indelParams = (lam, mu, x, y)" by (cases indelParams) auto
  obtain a b u q where c: "cnts = (a, b, u, q)" by (cases cnts) auto
  define nr :: "real list \<Rightarrow> real list"
    where "nr r = map (\<lambda>e. e / sum_list (map (max 0) r)) (map (max 0) r)" for r
  define L M oL oM where "L = lm t lam x" and "M = lm t mu y"
    and "oL = (if L < 1 then 1 - L else smallest_float32)"
    and "oM = (if M < 1 then 1 - M else smallest_float32)"
  define c2 v3 where "c2 = b + q * (1 - M) / M" and "v3 = (1 - a - u) * M / oM"
  have shape: "transitionMatrixFromCounts t indelParams cnts True =
      [nr [a, b, 1 - a - b],
       nr [u * L / oL, 1 - c2 * L / oL, (c2 - u) * L / oL],
       nr [v3, q, 1 - q - v3]]"
    unfolding transitionMatrixFromCounts_def p c Let_def prod.case if_True nr_def
      L_def M_def oL_def oM_def c2_def v3_def
    by (simp only: list.map)
  have ok: "length (nr [e1, e2, e3]) = 3 \<and> sum_list (nr [e1, e2, e3]) = 1 \<and>
      list_all (\<lambda>e. 0 \<le> e) (nr [e1, e2, e3])" if "e1 + e2 + e3 = 1" for e1 e2 e3
    unfolding nr_def using normalized_row [OF that] .
  have r1: "a + b + (1 - a - b) = 1" by simp
  have r2: "u * L / oL + (1 - c2 * L / oL) + (c2 - u) * L / oL = 1" by (rule row2_sum)
  have r3: "v3 + q + (1 - q - v3) = 1" by simp
  show ?thesis
    unfolding shape row_stochastic3_def list_all_Cons_iff list_all_Nil_iff
    using ok [OF r1] ok [OF r2] ok [OF r3] by (simp only: list.size) simp
qed

lemma lm_range:
  assumes "0 \<le> rate" "0 \<le> t" "prob < 1"
  shows "0 < lm t rate prob" "lm t rate prob \<le> 1"
proof -
  show "0 < lm t rate prob" by (simp add: lm_def)
  have "rate * t / (1 - prob) \<ge> 0" using assms by simp
  then show "lm t rate prob \<le> 1" by (simp add: lm_def)
qed

lemma largeTimeTransitionMatrix_stochastic:
  assumes "indelParamsValid indelParams" "0 \<le> t"
  shows "row_stochastic3 (largeTimeTransitionMatrix t indelParams)"
proof -
  obtain lam mu x y where p: "indelParams = (lam, mu, x, y)" by (cases indelParams) auto
  from assms p have v: "0 \<le> lam" "0 \<le> mu" "x < 1" "y < 1"
    by (simp_all add: indelParamsValid_def)
  note L = lm_range [OF v(1) assms(2) v(3)] and M = lm_range [OF v(2) assms(2) v(4)]
  have "0 \<le> lm t lam x * lm t mu y" "0 \<le> lm t lam x * (1 - lm t mu y)"
    using L M by simp_all
  then show ?thesis
    using L M
    by (simp add: largeTimeTransitionMatrix_def row_stochastic3_def p Let_def algebra_simps)
qed

lemma zeroTimeTransitionMatrix_stochastic:
  assumes "indelParamsValid indelParams"
  shows "row_stochastic3 (zeroTimeTransitionMatrix indelParams)"
  using assms
  by (cases indelParams) (simp add: zeroTimeTransitionMatrix_def row_stochastic3_def indelParamsValid_def)

lemma tMin_pos: "0 < tMin"
  by (simp add: tMin_def)

text \<open>
  Claim C3. For indel parameters in their ranges (both rates non-negative, both
  extension probabilities in [0, 1)), every alphabet size, every \<open>t \<ge> 0\<close> and
  whatever counts the integrator returns, the matrix returned by \<open>transitionMatrix\<close>
  is 3 by 3, every entry is non-negative and every row sums to 1, in real arithmetic.
\<close>

theorem transitionMatrix_stochastic:
  "indelParamsValid indelParams \<Longrightarrow> 0 \<le> t \<Longrightarrow>
   row_stochastic3 (transitionMatrix solve t indelParams alphabetSize)"
proof -
  assume v: "indelParamsValid indelParams" and t: "0 \<le> t"
  have "0 \<le> max t tMin" using tMin_pos by simp
  then show ?thesis
    using v
    by (simp add: transitionMatrix_def Let_def smallTimeTransitionMatrix_def
        transitionMatrixFromCounts_stochastic largeTimeTransitionMatrix_stochastic
        zeroTimeTransitionMatrix_stochastic)
qed

theorem transitionMatrix_stochastic_witness:
  "indelParamsValid (1, 1, 1 / 2, 1 / 2) \<and> (0::real) \<le> 1 \<and>
   row_stochastic3 (transitionMatrix rk4_single_step 1 (1, 1, 1 / 2, 1 / 2) 20)"
  using transitionMatrix_stochastic [of "(1, 1, 1 / 2, 1 / 2)" 1 rk4_single_step 20]
  by (simp add: indelParamsValid_def)

text \<open>
  Claim C9. For every \<open>t\<close> with \<open>0 < t \<le> 1e-3\<close>, \<open>transitionMatrix\<close> returns
  the same matrix as at \<open>t = 1e-3\<close>, whatever the parameters, the alphabet size and
  the integrator: every positive-time regime is computed from \<open>max t tMin\<close>.
\<close>

theorem transitionMatrix_clamped:
  "0 < t \<Longrightarrow> t \<le> 1 / 1000 \<Longrightarrow>
   transitionMatrix solve t indelParams alphabetSize =
   transitionMatrix solve (1 / 1000) indelParams alphabetSize"
  by (simp add: transitionMatrix_def tMin_def max_def)

theorem transitionMatrix_clamped_witness:
  "(0::real) < 1 / 2000 \<and> (1::real) / 2000 \<le> 1 / 1000 \<and>
   transitionMatrix rk4_single_step (1 / 2000) (1, 1, 1 / 2, 1 / 2) 20 =
   transitionMatrix rk4_single_step (1 / 1000) (1, 1, 1 / 2, 1 / 2) 20"
  using transitionMatrix_clamped [of "1 / 2000" rk4_single_step "(1, 1, 1 / 2, 1 / 2)" 20]
  by simp

lemma derivs_no_indels: "derivs t cnts (0, 0, 0, 0) = (0, 0, 0, 0)"
  by (cases cnts) (simp add: derivs_def lm_def Let_def)

lemma RK4body_no_indels: "RK4body (0, 0, 0, 0) y t_dt = y"
  by (cases y; cases t_dt)
     (simp add: RK4body_def derivs_no_indels counts_add_def counts_scale_def Let_def)

lemma no_indels_identity:
  assumes t: "0 < t" and A: "1 \<le> alphabetSize"
    and s: "solve derivs 0 (max t tMin) (initCounts (0, 0, 0, 0)) (0, 0, 0, 0) = initCounts (0, 0, 0, 0)"
  shows "transitionMatrix solve t (0, 0, 0, 0) alphabetSize = [[1, 0, 0], [0, 1, 0], [0, 0, 1]]"
proof -
  have und: "\<not> alignmentIsProbablyUndetectable (max t tMin) (0, 0, 0, 0) alphabetSize"
    using A by (simp add: alignmentIsProbablyUndetectable_def indels_def lm_def Let_def)
  have "smallTimeTransitionMatrix solve (max t tMin) (0, 0, 0, 0) = [[1, 0, 0], [0, 1, 0], [0, 0, 1]]"
    by (simp add: smallTimeTransitionMatrix_def integrateCounts_def s Let_def)
       (simp add: initCounts_def transitionMatrixFromCounts_def lm_def Let_def)
  with t und show ?thesis
    by (simp add: transitionMatrix_def Let_def)
qed

lemma rk4_single_step_no_indels:
  "rk4_single_step derivs 0 t1 (initCounts (0, 0, 0, 0)) (0, 0, 0, 0) = initCounts (0, 0, 0, 0)"
  by (simp add: rk4_single_step_def RK4body_no_indels)

text \<open>
  Claim C4, as amended. With no indel activity (both rates and both extension
  probabilities zero) the derivative of the counts vanishes identically, so an
  integrator leaves the initial counts \<open>(1, 0, 0, 0)\<close> as they are (the hypothesis on
  the solver; every Runge-Kutta step does, \<open>RK4body\<close> included). Then, for every
  \<open>t > 0\<close> and every alphabet size of at least 1, \<open>transitionMatrix\<close> returns the
  identity matrix: the floored \<open>1 - L\<close> and \<open>1 - M\<close> make the second and third rows
  \<open>[0, 1, 0]\<close> and \<open>[0, 0, 1]\<close>.
\<close>

theorem transitionMatrix_no_indels:
  "0 < t \<Longrightarrow> 1 \<le> alphabetSize \<Longrightarrow>
   solve derivs 0 (max t tMin) (initCounts (0, 0, 0, 0)) (0, 0, 0, 0) = initCounts (0, 0, 0, 0) \<Longrightarrow>
   transitionMatrix solve t (0, 0, 0, 0) alphabetSize = [[1, 0, 0], [0, 1, 0], [0, 0, 1]]"
  by (rule no_indels_identity)

theorem transitionMatrix_no_indels_witness:
  "(0::real) < 1 \<and> (1::nat) \<le> 20 \<and>
   rk4_single_step derivs 0 (max 1 tMin) (initCounts (0, 0, 0, 0)) (0, 0, 0, 0) = initCounts (0, 0, 0, 0) \<and>
   transitionMatrix rk4_single_step 1 (0, 0, 0, 0) 20 = [[1, 0, 0], [0, 1, 0], [0, 0, 1]]"
  using transitionMatrix_no_indels [of 1 20 rk4_single_step] rk4_single_step_no_indels [of "max 1 tMin"]
  by simp

text \<open>
  The claim as stated fails at \<open>t = 1\<close> with the default alphabet size 20: the matrix
  returned is the identity, not three rows \<open>[1, 0, 0]\<close>.
\<close>

theorem transitionMatrix_no_indels_counterexample:
  "transitionMatrix rk4_single_step 1 (0, 0, 0, 0) 20 \<noteq> [[1, 0, 0], [1, 0, 0], [1, 0, 0]]"
proof -
  have "transitionMatrix rk4_single_step 1 (0, 0, 0, 0) 20 = [[1, 0, 0], [0, 1, 0], [0, 0, 1]]"
    by (rule no_indels_identity) (simp_all add: rk4_single_step_no_indels)
  then show ?thesis by simp
qed

section \<open>Properties of the discretized branch lengths\<close>

lemma geomspace_default: "geomspace (1 / 1000) 10 400 = map grid_point [0..<400]"
  unfolding geomspace_def grid_point_def by (rule refl)

lemma grid_point_le_iff: "grid_point i \<le> grid_point k \<longleftrightarrow> i \<le> k"
proof -
  have "(10000::real) powr (real i / 399) \<le> 10000 powr (real k / 399) \<longleftrightarrow> real i / 399 \<le> real k / 399"
    by (rule powr_le_cancel_iff) simp
  then show ?thesis by (simp add: grid_point_def)
qed

lemma grid_point_less_iff: "grid_point i < grid_point k \<longleftrightarrow> i < k"
  using grid_point_le_iff [of k i] by (simp add: not_le [symmetric])

lemma grid_point_0: "grid_point 0 = 1 / 1000"
  by (simp add: grid_point_def)

lemma grid_point_399: "grid_point 399 = 10"
  by (simp add: grid_point_def)

lemma grid_point_pos: "0 < grid_point k"
  by (simp add: grid_point_def)

lemma count_le_upt: "length (filter (\<lambda>i. i \<le> k) [0..<n]) = min n (Suc k)"
  by (induction n) auto

lemma searchsorted_grid_point:
  "searchsorted_right (map grid_point [0..<n]) (grid_point k) = min n (Suc k)"
proof -
  have "filter (\<lambda>b. b \<le> grid_point k) (map grid_point [0..<n]) =
      map grid_point (filter (\<lambda>i. i \<le> k) [0..<n])"
    by (simp add: filter_map comp_def grid_point_le_iff)
  then show ?thesis by (simp add: searchsorted_right_def count_le_upt)
qed

lemma hd_last_grid: "hd (map grid_point [0..<400]) \<le> last (map grid_point [0..<400])"
proof -
  have "[0..<400] \<noteq> []" by simp
  then have "hd (map grid_point [0..<400]) = grid_point 0" "last (map grid_point [0..<400]) = grid_point 399"
    by (simp_all add: hd_map last_map)
  then show ?thesis by (simp add: grid_point_le_iff)
qed

lemma digitize_default:
  "digitize x (geomspace (1 / 1000) 10 400) = searchsorted_right (map grid_point [0..<400]) x"
  using hd_last_grid by (simp add: digitize_def geomspace_default)

lemma discretize_grid_point:
  assumes "k < 400"
  shows "discretizeBranchLength (grid_point k) defaultDiscretizationParams = k + 2"
proof -
  have lo: "grid_point 0 \<le> grid_point k" and hi: "grid_point k \<le> grid_point 399"
    using assms by (simp_all add: grid_point_le_iff)
  then have "clip (grid_point k) (1 / 1000) 10 = grid_point k"
    by (simp add: clip_def grid_point_0 grid_point_399)
  moreover have "grid_point k \<noteq> 0" using grid_point_pos [of k] by simp
  ultimately show ?thesis
    using assms
    by (simp add: discretizeBranchLength_def defaultDiscretizationParams_def digitize_default
        searchsorted_grid_point)
qed

lemma searchsorted_mono:
  "x \<le> y \<Longrightarrow> searchsorted_right bins x \<le> searchsorted_right bins y"
proof -
  assume "x \<le> y"
  then have "filter (\<lambda>b. b \<le> x) bins = filter (\<lambda>b. b \<le> x) (filter (\<lambda>b. b \<le> y) bins)"
    by (auto intro: filter_cong)
  then have "length (filter (\<lambda>b. b \<le> x) bins) \<le> length (filter (\<lambda>b. b \<le> y) bins)"
    by (metis length_filter_le)
  then show ?thesis by (simp add: searchsorted_right_def)
qed

lemma discretize_positive:
  assumes "0 < t"
  shows "2 \<le> discretizeBranchLength t defaultDiscretizationParams"
proof -
  have "grid_point 0 \<le> clip t (1 / 1000) 10"
    by (simp add: clip_def grid_point_0)
  then have "searchsorted_right (map grid_point [0..<400]) (grid_point 0)
      \<le> searchsorted_right (map grid_point [0..<400]) (clip t (1 / 1000) 10)"
    by (rule searchsorted_mono)
  then have "1 \<le> digitize (clip t (1 / 1000) 10) (geomspace (1 / 1000) 10 400)"
    by (simp add: digitize_default searchsorted_grid_point)
  with assms show ?thesis
    by (simp add: discretizeBranchLength_def defaultDiscretizationParams_def)
qed

lemma discretize_at_least_tMax:
  assumes "10 \<le> t"
  shows "discretizeBranchLength t defaultDiscretizationParams = 401"
proof -
  from assms have "clip t (1 / 1000) 10 = grid_point 399"
    by (simp add: clip_def grid_point_399)
  moreover from assms have "t \<noteq> 0" by simp
  ultimately show ?thesis
    by (simp add: discretizeBranchLength_def defaultDiscretizationParams_def digitize_default
        searchsorted_grid_point)
qed

lemma length_getDiscretizedTimes:
  "length (getDiscretizedTimes defaultDiscretizationParams) = 401"
  by (simp add: getDiscretizedTimes_def defaultDiscretizationParams_def geomspace_def)

lemma length_computeSubMatrixForBranchLengths:
  "computeSubMatrixForBranchLengths ts subRate = Inr table \<Longrightarrow> length table = length ts"
  by (auto simp add: computeSubMatrixForBranchLengths_def split: if_splits)

text \<open>
  Claim C10. On the default grid, a positive branch length is mapped to an index of at
  least 2, so the table entry at index 1 (grid time \<open>tMin\<close>) is never selected; a
  branch length of at least \<open>tMax = 10\<close> is mapped to index 401, while the table
  built by \<open>computeSubMatrixForDiscretizedTimes\<close> has 401 entries, whose last valid
  index is 400.
\<close>

theorem discretizeBranchLength_indices:
  "(0 < t \<longrightarrow> 2 \<le> discretizeBranchLength t defaultDiscretizationParams) \<and>
   (10 \<le> t \<longrightarrow> discretizeBranchLength t defaultDiscretizationParams = 401) \<and>
   (computeSubMatrixForDiscretizedTimes subRate defaultDiscretizationParams = Inr table \<longrightarrow>
      length table = 401)"
  using discretize_positive [of t] discretize_at_least_tMax [of t]
    length_computeSubMatrixForBranchLengths [of "getDiscretizedTimes defaultDiscretizationParams" subRate table]
  by (simp add: computeSubMatrixForDiscretizedTimes_def Let_def length_getDiscretizedTimes)


theorem discretizeBranchLength_indices_witness:
  "((0::real) < 10 \<and> 2 \<le> discretizeBranchLength 10 defaultDiscretizationParams) \<and>
   ((10::real) \<le> 10 \<and> discretizeBranchLength 10 defaultDiscretizationParams = 401) \<and>
   (computeSubMatrixForDiscretizedTimes [[0]] defaultDiscretizationParams =
      Inr (map (\<lambda>d. expm [[0 * d]]) (getDiscretizedTimes defaultDiscretizationParams)) \<and>
    length (map (\<lambda>d. expm [[0 * d]]) (getDiscretizedTimes defaultDiscretizationParams)) = 401)"
proof -
  have "computeSubMatrixForDiscretizedTimes [[0]] defaultDiscretizationParams =
      Inr (map (\<lambda>d. expm [[0 * d]]) (getDiscretizedTimes defaultDiscretizationParams))"
    by (simp add: computeSubMatrixForDiscretizedTimes_def computeSubMatrixForBranchLengths_def)
  then show ?thesis
    using discretizeBranchLength_indices [of 10 "[[0]]"
        "map (\<lambda>d. expm [[0 * d]]) (getDiscretizedTimes defaultDiscretizationParams)"]
    by simp
qed

lemma getDiscretizedTimes_nth:
  "k < 400 \<Longrightarrow> getDiscretizedTimes defaultDiscretizationParams ! Suc k = grid_point k"
  by (simp add: getDiscretizedTimes_def defaultDiscretizationParams_def geomspace_default)

lemma jax_get_in_bounds: "i < length xs \<Longrightarrow> jax_get xs (int i) = xs ! i"
  by (simp add: jax_get_def norm_index_def min_def)

text \<open>
  Claim C5, what the code does. For the branch length that is the grid time number
  \<open>k\<close> (entry \<open>k + 1\<close> of the table of times), \<open>k < 399\<close>, the lookup returns
  the matrix computed for the next, strictly greater grid time (entry \<open>k + 2\<close>),
  whereas the directly computed matrix is the exponential at the grid time itself. A
  branch length of exactly 0 does get the zero-time entry.
\<close>

theorem discretized_lookup_on_grid:
  "k < 399 \<Longrightarrow>
   computeSubMatrixForDiscretizedTimes subRate defaultDiscretizationParams = Inr table \<Longrightarrow>
   computeSubMatrixForDiscretizedBranchLengths
       [getDiscretizedTimes defaultDiscretizationParams ! (k + 1)] table defaultDiscretizationParams =
     [expm (map (map (\<lambda>q. q * getDiscretizedTimes defaultDiscretizationParams ! (k + 2))) subRate)] \<and>
   getDiscretizedTimes defaultDiscretizationParams ! (k + 1) <
     getDiscretizedTimes defaultDiscretizationParams ! (k + 2) \<and>
   computeSubMatrixForBranchLengths
       [getDiscretizedTimes defaultDiscretizationParams ! (k + 1)] subRate =
     Inr [expm (map (map (\<lambda>q. q * getDiscretizedTimes defaultDiscretizationParams ! (k + 1))) subRate)] \<and>
   computeSubMatrixForDiscretizedBranchLengths [0] table defaultDiscretizationParams =
     [expm (map (map (\<lambda>q. q * 0)) subRate)]"
proof -
  let ?ts = "getDiscretizedTimes defaultDiscretizationParams"
  assume k: "k < 399"
    and tab: "computeSubMatrixForDiscretizedTimes subRate defaultDiscretizationParams = Inr table"
  from tab have sq: "list_all (\<lambda>row. length row = length subRate) subRate"
    and table: "table = map (\<lambda>d. expm (map (map (\<lambda>q. q * d)) subRate)) ?ts"
    by (auto simp add: computeSubMatrixForDiscretizedTimes_def computeSubMatrixForBranchLengths_def
        Let_def split: if_splits)
  have len: "length table = 401" by (simp add: table length_getDiscretizedTimes)
  have t1: "?ts ! (k + 1) = grid_point k" and t2: "?ts ! (k + 2) = grid_point (Suc k)"
    using k getDiscretizedTimes_nth [of k] getDiscretizedTimes_nth [of "Suc k"] by simp_all
  have idx: "discretizeBranchLength (?ts ! (k + 1)) defaultDiscretizationParams = k + 2"
    unfolding t1 using k by (intro discretize_grid_point) simp
  have "jax_get table (int (k + 2)) = table ! (k + 2)"
    using k len by (intro jax_get_in_bounds) simp
  also have "\<dots> = expm (map (map (\<lambda>q. q * ?ts ! (k + 2))) subRate)"
    using k by (simp add: table length_getDiscretizedTimes)
  finally have look: "computeSubMatrixForDiscretizedBranchLengths [?ts ! (k + 1)] table
      defaultDiscretizationParams = [expm (map (map (\<lambda>q. q * ?ts ! (k + 2))) subRate)]"
    by (simp only: computeSubMatrixForDiscretizedBranchLengths_def list.map idx)
  have less: "?ts ! (k + 1) < ?ts ! (k + 2)"
    by (simp only: t1 t2 grid_point_less_iff lessI)
  have direct: "computeSubMatrixForBranchLengths [?ts ! (k + 1)] subRate =
      Inr [expm (map (map (\<lambda>q. q * ?ts ! (k + 1))) subRate)]"
    using sq by (simp add: computeSubMatrixForBranchLengths_def)
  have z: "?ts ! 0 = 0"
    by (simp add: getDiscretizedTimes_def defaultDiscretizationParams_def)
  have "jax_get table (int 0) = table ! 0"
    using len by (intro jax_get_in_bounds) simp
  also have "\<dots> = expm (map (map (\<lambda>q. q * 0)) subRate)"
    using z by (simp add: table length_getDiscretizedTimes)
  finally have zero: "computeSubMatrixForDiscretizedBranchLengths [0] table defaultDiscretizationParams =
      [expm (map (map (\<lambda>q. q * 0)) subRate)]"
    by (simp add: computeSubMatrixForDiscretizedBranchLengths_def discretizeBranchLength_def
        defaultDiscretizationParams_def)
  from look less direct zero show ?thesis by blast
qed

theorem discretized_lookup_on_grid_witness:
  "(0::nat) < 399 \<and>
   computeSubMatrixForDiscretizedTimes [[- 1, 1], [1, - 1]] defaultDiscretizationParams =
     Inr (map (\<lambda>d. expm (map (map (\<lambda>q. q * d)) [[- 1, 1], [1, - 1]]))
            (getDiscretizedTimes defaultDiscretizationParams)) \<and>
   getDiscretizedTimes defaultDiscretizationParams ! 1 = 1 / 1000 \<and>
   computeSubMatrixForDiscretizedBranchLengths [1 / 1000]
       (map (\<lambda>d. expm (map (map (\<lambda>q. q * d)) [[- 1, 1], [1, - 1]]))
          (getDiscretizedTimes defaultDiscretizationParams)) defaultDiscretizationParams =
     [expm (map (map (\<lambda>q. q * getDiscretizedTimes defaultDiscretizationParams ! 2)) [[- 1, 1], [1, - 1]])] \<and>
   1 / 1000 < getDiscretizedTimes defaultDiscretizationParams ! 2"
proof -
  let ?Q = "[[- 1, 1], [1, - 1 :: real]]"
  let ?ts = "getDiscretizedTimes defaultDiscretizationParams"
  have tab: "computeSubMatrixForDiscretizedTimes ?Q defaultDiscretizationParams =
      Inr (map (\<lambda>d. expm (map (map (\<lambda>q. q * d)) ?Q)) ?ts)"
    by (simp add: computeSubMatrixForDiscretizedTimes_def computeSubMatrixForBranchLengths_def)
  have one: "?ts ! 1 = 1 / 1000"
    using getDiscretizedTimes_nth [of 0] by (simp add: grid_point_0)
  have k: "(0::nat) < 399" by simp
  note th = discretized_lookup_on_grid [OF k tab, unfolded add_0 one]
  from th have "computeSubMatrixForDiscretizedBranchLengths [1 / 1000]
       (map (\<lambda>d. expm (map (map (\<lambda>q. q * d)) ?Q)) ?ts) defaultDiscretizationParams =
     [expm (map (map (\<lambda>q. q * ?ts ! 2)) ?Q)]"
    and "1 / 1000 < ?ts ! 2" by blast+
  with k tab one show ?thesis by blast
qed

section \<open>Properties of the substitution likelihood\<close>

lemma sum_list_zero_dot: "sum_list (map2 (*) (replicate n (0::real)) ys) = 0"
proof (induction n arbitrary: ys)
  case 0
  show ?case by simp
next
  case (Suc n)
  then show ?case by (cases ys) simp_all
qed

lemma mat_mul_zeros: "mat_mul (zeros n) Y = zeros n"
  by (simp add: mat_mul_def zeros_def sum_list_zero_dot map_replicate_const)

lemma mat_pow_zeros: "mat_pow (zeros n) (Suc k) = zeros n"
  by (simp add: mat_mul_zeros)

lemma eye_nth: "i < n \<Longrightarrow> j < n \<Longrightarrow> eye n ! i ! j = (if i = j then 1 else 0)"
  by (simp add: eye_def)

lemma expm_zeros: "expm (zeros n) = eye n"
proof -
  have entry: "(\<Sum>k. mat_pow (zeros n) k ! i ! j / fact k) = (if i = j then 1 else 0)"
    if "i < n" "j < n" for i j
  proof -
    have "(\<Sum>k. mat_pow (zeros n) k ! i ! j / fact k) =
        (\<Sum>k\<in>{0}. mat_pow (zeros n) k ! i ! j / fact k)"
    proof (rule suminf_finite)
      show "finite {0::nat}" by simp
      fix k :: nat
      assume "k \<notin> {0}"
      then obtain m where "k = Suc m" by (cases k) auto
      then show "mat_pow (zeros n) k ! i ! j / fact k = 0"
        using that by (simp only: mat_pow_zeros) (simp add: zeros_def)
    qed
    also have "\<dots> = (if i = j then 1 else 0)"
      using that by (simp add: eye_nth zeros_def)
    finally show ?thesis .
  qed
  have "length (zeros n) = n" by (simp add: zeros_def)
  then show ?thesis
    unfolding expm_def eye_def by (auto intro!: map_cong simp add: entry)
qed

lemma scale_zero:
  assumes "list_all (\<lambda>row. length row = length subRate) subRate"
  shows "map (map (\<lambda>q. q * 0)) subRate = zeros (length subRate)"
proof -
  have "map (\<lambda>q. q * (0::real)) row = replicate (length subRate) 0" if "row \<in> set subRate" for row
    using assms that by (simp add: list_all_iff map_replicate_const)
  then have "map (map (\<lambda>q. q * 0)) subRate = map (\<lambda>row. replicate (length subRate) 0) subRate"
    by (intro map_cong) simp_all
  then show ?thesis by (simp add: zeros_def map_replicate_const)
qed

text \<open>
  Claim C2, as amended. The checks live in the two validators, which
  \<open>subLogLike\<close> does not call: \<open>alignmentIsValid\<close> fails on every alignment with
  a token outside \<open>[-1, alphabetSize)\<close>, and \<open>treeIsValid\<close> fails on every tree with
  a negative entry of \<open>distanceToParent\<close> or with \<open>parentIndex[i] > i\<close> for some
  \<open>i > 0\<close>.
\<close>

theorem validators_reject:
  "((\<exists>row\<in>set alignment. \<exists>tok\<in>set row. tok < - 1 \<or> alphabetSize \<le> tok) \<longrightarrow>
      alignmentIsValid alignment alphabetSize = Inl AssertionError) \<and>
   ((\<exists>d\<in>set distanceToParent. d < 0) \<longrightarrow>
      treeIsValid distanceToParent parentIndex alignmentRows = Inl AssertionError) \<and>
   ((\<exists>i. 0 < i \<and> i < length parentIndex \<and> int i < parentIndex ! i) \<longrightarrow>
      (\<exists>e. treeIsValid distanceToParent parentIndex alignmentRows = Inl e))"
proof (intro conjI impI)
  assume "\<exists>row\<in>set alignment. \<exists>tok\<in>set row. tok < - 1 \<or> alphabetSize \<le> tok"
  then obtain row tok where rt: "row \<in> set alignment" "tok \<in> set row"
    and bad: "tok < - 1 \<or> alphabetSize \<le> tok" by blast
  have "\<not> list_all (list_all (\<lambda>tok. tok < alphabetSize)) alignment"
    if "list_all (list_all (\<lambda>tok. - 1 \<le> tok)) alignment"
  proof -
    from that rt have "- 1 \<le> tok" by (auto simp add: list_all_iff)
    with bad have "\<not> tok < alphabetSize" by simp
    with rt show ?thesis by (auto simp add: list_all_iff)
  qed
  then show "alignmentIsValid alignment alphabetSize = Inl AssertionError"
    by (auto simp add: alignmentIsValid_def)
next
  assume "\<exists>d\<in>set distanceToParent. d < 0"
  then show "treeIsValid distanceToParent parentIndex alignmentRows = Inl AssertionError"
    by (auto simp add: treeIsValid_def list_all_iff)
next
  assume "\<exists>i. 0 < i \<and> i < length parentIndex \<and> int i < parentIndex ! i"
  then obtain i where i: "0 < i" "i < length parentIndex" "int i < parentIndex ! i" by blast
  have "le_arange parentIndex alignmentRows \<noteq> Inr True"
  proof (cases "length parentIndex = alignmentRows")
    case True
    have "(parentIndex ! i, i) \<in> set (zip parentIndex [0..<alignmentRows])"
      using i True by (auto simp add: set_zip intro!: exI [of _ i])
    with i(3) have "\<not> list_all (\<lambda>(p, i). p \<le> int i) (zip parentIndex [0..<alignmentRows])"
      unfolding list_all_iff by (intro notI) (drule (1) bspec, simp)
    with True show ?thesis by (simp add: le_arange_def)
  next
    case False
    from i have n1: "length parentIndex \<noteq> 1" by simp
    have "parentIndex ! i \<in> set parentIndex" using i by simp
    moreover have "\<not> parentIndex ! i \<le> 0" using i by simp
    ultimately have "\<not> list_all (\<lambda>p. p \<le> 0) parentIndex" by (auto simp add: list_all_iff)
    with False n1 show ?thesis by (simp add: le_arange_def)
  qed
  then show "\<exists>e. treeIsValid distanceToParent parentIndex alignmentRows = Inl e"
    by (cases "le_arange parentIndex alignmentRows") (auto simp add: treeIsValid_def)
qed


theorem validators_reject_witness:
  "((\<exists>row\<in>set [[5::int]]. \<exists>tok\<in>set row. tok < - 1 \<or> 4 \<le> tok) \<and>
      alignmentIsValid [[5]] 4 = Inl AssertionError) \<and>
   ((\<exists>d\<in>set [0, - 1 :: real]. d < 0) \<and>
      treeIsValid [0, - 1] [- 1, 2] 2 = Inl AssertionError) \<and>
   ((\<exists>i. 0 < i \<and> i < length [- 1, 2 :: int] \<and> int i < [- 1, 2] ! i) \<and>
      (\<exists>e. treeIsValid [0, - 1] [- 1, 2] 2 = Inl e))"
proof -
  have h1: "\<exists>row\<in>set [[5::int]]. \<exists>tok\<in>set row. tok < - 1 \<or> 4 \<le> tok" by simp
  have h2: "\<exists>d\<in>set [0, - 1 :: real]. d < 0" by simp
  have h3: "\<exists>i. 0 < i \<and> i < length [- 1, 2 :: int] \<and> int i < [- 1, 2] ! i"
    by (rule exI [of _ 1]) simp
  show ?thesis
    using validators_reject [of "[[5]]" 4 "[0, - 1]" "[- 1, 2]" 2] h1 h2 h3 by blast
qed

lemma eye_2: "eye 2 = [[1, 0], [0, 1]]"
  by (simp add: eye_def upt_rec numeral_2_eq_2)

lemma expm_zero_2: "expm [[0, 0], [0, 0]] = [[1, 0], [0, 1]]"
  using expm_zeros [of 2, unfolded eye_2 zeros_def] by (simp add: numeral_2_eq_2)

text \<open>
  The claim as stated fails: with the negative branch length \<open>-1\<close> (two identical
  one-column sequences over a two-letter alphabet, no substitutions, uniform root
  frequencies) \<open>subLogLike\<close> returns a number, the logarithm of one half.
\<close>

theorem subLogLike_negative_distance_counterexample:
  "subLogLike [[0], [0]] [0, - 1] [- 1, 0] [[0, 0], [0, 0]] [1 / 2, 1 / 2] = Inr [Num (ln (1 / 2))]"
proof -
  have sm: "computeSubMatrixForBranchLengths [0, - 1] [[0, 0], [0, 0]] =
      Inr [[[1, 0], [0, 1]], [[1, 0], [0, 1]]]"
    by (simp add: computeSubMatrixForBranchLengths_def expm_zero_2)
  have "subLogLikeForMatrices [[0], [0]] [- 1, 0] [[[1, 0], [0, 1]], [[1, 0], [0, 1]]] [1 / 2, 1 / 2] =
      Inr [Num (ln (1 / 2))]"
    by (simp add: subLogLikeForMatrices_def Let_def tokenLookup_def eye_def upt_rec
        prune_step_def jax_get_def jax_at_def norm_index_def matvec_def fsum_def)
  then show ?thesis by (simp add: subLogLike_def sm)
qed

subsection \<open>Padding invariance\<close>

lemma jax_get_nat: "0 \<le> i \<Longrightarrow> i < int (length xs) \<Longrightarrow> jax_get xs i = xs ! nat i"
  by (simp add: jax_get_def norm_index_def min_def)

lemma jax_at_nat:
  "0 \<le> i \<Longrightarrow> i < int (length xs) \<Longrightarrow> jax_at xs i f = xs[nat i := f (xs ! nat i)]"
  by (simp add: jax_at_def norm_index_def)

lemma length_jax_at: "length (jax_at xs i f) = length xs"
  by (simp add: jax_at_def Let_def)

lemma prune_step_in_bounds:
  assumes c: "c < length L" and p0: "0 \<le> parentIndex ! c" and p1: "parentIndex ! c < int (length L)"
  shows "prune_step parentIndex subMatrix c (L, logNorm) =
     (L[nat (parentIndex ! c) := rescaled (parent_row (subMatrix ! c) (L ! nat (parentIndex ! c)) (L ! c))],
      map2 fadd logNorm (map flog (map list_max
         (parent_row (subMatrix ! c) (L ! nat (parentIndex ! c)) (L ! c)))))"
proof -
  let ?p = "nat (parentIndex ! c)"
  let ?row1 = "parent_row (subMatrix ! c) (L ! ?p) (L ! c)"
  have pl: "?p < length L" using p0 p1 by simp
  have g: "jax_get L (int c) = L ! c" using c by (simp add: jax_get_nat)
  have l1: "jax_at L (parentIndex ! c) (\<lambda>row. map2 (map2 fmul) row (map (matvec (subMatrix ! c)) (L ! c)))
      = L[?p := ?row1]"
    using p0 p1 by (simp add: jax_at_nat parent_row_def)
  have g1: "jax_get (L[?p := ?row1]) (parentIndex ! c) = ?row1"
    using p0 p1 pl by (simp add: jax_get_nat)
  have l2: "jax_at (L[?p := ?row1]) (parentIndex ! c)
        (\<lambda>row. map2 (\<lambda>v m. map (\<lambda>e. fdiv e m) v) row (map list_max ?row1))
      = L[?p := rescaled ?row1]"
    using p0 p1 pl by (simp add: jax_at_nat rescaled_def)
  show ?thesis
    unfolding prune_step_def Let_def prod.case g l1 g1 l2 ..
qed

lemma take_parent_row: "take n (parent_row m prow crow) = parent_row m (take n prow) (take n crow)"
  by (simp add: parent_row_def take_map take_zip)

lemma take_rescaled: "take n (rescaled row) = rescaled (take n row)"
  by (simp add: rescaled_def take_map take_zip)

lemma prune_step_restrict:
  assumes c: "c < R" and RL: "R \<le> length L"
    and p0: "0 \<le> parentIndex ! c" and p1: "parentIndex ! c < int R"
    and pe: "parentIndex' ! c = parentIndex ! c" and se: "subMatrix' ! c = subMatrix ! c"
  shows "restrict_state R C (prune_step parentIndex' subMatrix' c (L, logNorm)) =
         prune_step parentIndex subMatrix c (restrict_state R C (L, logNorm))"
proof -
  let ?p = "nat (parentIndex ! c)"
  let ?L = "map (take C) (take R L)"
  have pR: "?p < R" using p0 p1 by simp
  have lenL: "length ?L = R" using RL by simp
  have nc: "?L ! c = take C (L ! c)" and np: "?L ! ?p = take C (L ! ?p)"
    using c pR RL by simp_all
  have big: "prune_step parentIndex' subMatrix' c (L, logNorm) =
     (L[?p := rescaled (parent_row (subMatrix ! c) (L ! ?p) (L ! c))],
      map2 fadd logNorm (map flog (map list_max (parent_row (subMatrix ! c) (L ! ?p) (L ! c)))))"
    using prune_step_in_bounds [of c L parentIndex' subMatrix' logNorm] c RL p0 p1
    by (simp add: pe se)
  have small: "prune_step parentIndex subMatrix c (?L, take C logNorm) =
     (?L[?p := rescaled (parent_row (subMatrix ! c) (?L ! ?p) (?L ! c))],
      map2 fadd (take C logNorm) (map flog (map list_max (parent_row (subMatrix ! c) (?L ! ?p) (?L ! c)))))"
    using prune_step_in_bounds [of c ?L parentIndex subMatrix "take C logNorm"] c p0 p1 lenL
    by simp
  show ?thesis
    unfolding restrict_state_def prod.case big small nc np
    by (simp add: take_update_swap map_update take_rescaled take_parent_row take_zip take_map)
qed


lemma length_prune_step: "length (fst (prune_step parentIndex subMatrix c (L, logNorm))) = length L"
  by (simp add: prune_step_def Let_def length_jax_at)

lemma fold_prune_step_restrict:
  assumes "\<forall>c\<in>set cs. c < R \<and> 0 \<le> parentIndex ! c \<and> parentIndex ! c < int R \<and>
             parentIndex' ! c = parentIndex ! c \<and> subMatrix' ! c = subMatrix ! c"
    and "R \<le> length L"
  shows "restrict_state R C (fold (prune_step parentIndex' subMatrix') cs (L, logNorm)) =
         fold (prune_step parentIndex subMatrix) cs (restrict_state R C (L, logNorm))"
  using assms
proof (induction cs arbitrary: L logNorm)
  case Nil
  show ?case by simp
next
  case (Cons c cs)
  obtain L1 ln1 where s1: "prune_step parentIndex' subMatrix' c (L, logNorm) = (L1, ln1)"
    by (cases "prune_step parentIndex' subMatrix' c (L, logNorm)")
  have "length L1 = length L"
    using length_prune_step [of parentIndex' subMatrix' c L logNorm] by (simp add: s1)
  with Cons.prems have len: "R \<le> length L1" by simp
  have step: "restrict_state R C (L1, ln1) = prune_step parentIndex subMatrix c (restrict_state R C (L, logNorm))"
    using prune_step_restrict [of c R L parentIndex parentIndex' subMatrix' subMatrix C logNorm] Cons.prems
    by (simp add: s1)
  have "restrict_state R C (fold (prune_step parentIndex' subMatrix') cs (L1, ln1)) =
      fold (prune_step parentIndex subMatrix) cs (restrict_state R C (L1, ln1))"
    using Cons.prems len by (intro Cons.IH) simp_all
  then show ?case by (simp add: s1 step)
qed

lemma map2_replicate: "map2 f (replicate n x) (replicate n y) = replicate n (f x y)"
  by simp

lemma map2_scale_ones:
  "length xs = n \<Longrightarrow> map2 (\<lambda>p x. fmul (Num p) x) xs (replicate n (Num 1)) = map Num xs"
  by (induction xs arbitrary: n) auto

lemma fsum_Num: "fsum (map Num xs) = Num (sum_list xs)"
  by (induction xs) (simp_all add: fsum_def)

lemma fadd_zero: "fadd x (Num 0) = x"
  by (cases x) simp_all

lemma map2_add_zeros: "length xs = n \<Longrightarrow> map2 fadd xs (replicate n (Num 0)) = xs"
  by (induction xs arbitrary: n) (auto simp add: fadd_zero)

lemma sum_list_indicator:
  "i < n \<Longrightarrow> sum_list (map (\<lambda>j. if i = j then 1 else (0::real)) [0..<n]) = 1"
  by (simp add: interv_sum_list_conv_sum_set_nat)

lemma matvec_eye_ones: "matvec (eye A) (replicate A (Num 1)) = replicate A (Num 1)"
proof -
  have "fsum (map2 (\<lambda>p x. fmul (Num p) x) (map (\<lambda>j. if i = j then 1 else 0) [0..<A])
          (replicate A (Num 1))) = Num 1"
    if "i < A" for i
    using that
    by (subst map2_scale_ones [where n = A]) (simp_all add: fsum_Num sum_list_indicator del: map_map)
  then have "map (\<lambda>i. fsum (map2 (\<lambda>p x. fmul (Num p) x) (map (\<lambda>j. if i = j then 1 else 0) [0..<A])
          (replicate A (Num 1)))) [0..<A]
      = map (\<lambda>i. Num 1) [0..<A]"
    by (intro map_cong) simp_all
  then show ?thesis
    by (simp add: matvec_def eye_def comp_def map_replicate_const)
qed

lemma list_max_ones: "0 < A \<Longrightarrow> list_max (replicate A (Num 1)) = Num 1"
proof -
  have "fold fmax (replicate n (Num 1)) (Num 1) = Num 1" for n by (induction n) simp_all
  moreover assume "0 < A"
  then obtain n where "A = Suc n" by (cases A) auto
  ultimately show ?thesis by simp
qed

lemma prune_step_padding:
  assumes c: "c < length L" and par: "parentIndex ! c = int c" and sm: "subMatrix ! c = eye A"
    and row: "L ! c = replicate C' (replicate A (Num 1))" and ln: "length logNorm = C'" and A: "0 < A"
  shows "prune_step parentIndex subMatrix c (L, logNorm) = (L, logNorm)"
proof -
  have pr: "parent_row (eye A) (replicate C' (replicate A (Num 1))) (replicate C' (replicate A (Num 1))) =
      replicate C' (replicate A (Num 1))"
    by (simp add: parent_row_def matvec_eye_ones map2_replicate)
  have mx: "map list_max (replicate C' (replicate A (Num 1))) = replicate C' (Num 1)"
    using A by (simp add: list_max_ones)
  have rs: "rescaled (replicate C' (replicate A (Num 1))) = replicate C' (replicate A (Num 1))"
    unfolding rescaled_def mx by (simp add: map2_replicate)
  have "prune_step parentIndex subMatrix c (L, logNorm) =
      (L[c := replicate C' (replicate A (Num 1))], map2 fadd logNorm (map flog (replicate C' (Num 1))))"
    using prune_step_in_bounds [of c L parentIndex subMatrix logNorm] c
    unfolding par sm nat_int row pr rs mx by simp
  also have "\<dots> = (L, logNorm)"
    using ln row by (simp add: map2_add_zeros list_update_same_conv c)
  finally show ?thesis .
qed

lemma fold_fixed: "(\<And>c. c \<in> set cs \<Longrightarrow> f c s = s) \<Longrightarrow> fold f cs s = s"
  by (induction cs) simp_all


lemma subLogLikeForMatrices_ok:
  assumes "length parentIndex = length subMatrix"
    and "list_all (\<lambda>m. length m = A \<and> list_all (\<lambda>row. length row = A) m) subMatrix"
    and "length rootProb = A" and "alignment \<noteq> []" and "0 < A"
  shows "subLogLikeForMatrices alignment parentIndex subMatrix rootProb =
     Inr (root_loglike rootProb
            (fold (prune_step parentIndex subMatrix) (rev [1..<length subMatrix])
               (init_likelihood A alignment, replicate (length (hd alignment)) (Num 0))))"
  using assms
  by (simp add: subLogLikeForMatrices_def Let_def root_loglike_def init_likelihood_def
      split: prod.splits)

lemma expm_shape: "length (expm X) = length X \<and> list_all (\<lambda>row. length row = length X) (expm X)"
  by (simp add: expm_def list_all_iff)

lemma take_root_loglike:
  assumes "0 < R" "R \<le> length L"
  shows "take C (root_loglike rootProb (L, logNorm)) =
         root_loglike rootProb (restrict_state R C (L, logNorm))"
proof -
  have "L \<noteq> []" using assms by auto
  then have "jax_get L 0 = L ! 0" using jax_get_nat [of 0 L] by simp
  moreover have "jax_get (map (take C) (take R L)) 0 = take C (L ! 0)"
    using assms jax_get_nat [of 0 "map (take C) (take R L)"] by simp
  ultimately show ?thesis
    by (simp add: root_loglike_def restrict_state_def take_zip take_map)
qed


lemma token_gap0: "map Num (jax_get (tokenLookup A) 0) = replicate A (Num 1)"
  by (simp add: jax_get_def norm_index_def tokenLookup_def)

lemma length_fold_prune_step:
  "length (fst (fold (prune_step parentIndex subMatrix) cs (L, logNorm))) = length L"
proof (induction cs arbitrary: L logNorm)
  case Nil
  show ?case by simp
next
  case (Cons c cs)
  obtain L1 ln1 where s1: "prune_step parentIndex subMatrix c (L, logNorm) = (L1, ln1)"
    by (cases "prune_step parentIndex subMatrix c (L, logNorm)")
  have "length L1 = length L"
    using length_prune_step [of parentIndex subMatrix c L logNorm] by (simp add: s1)
  then show ?case using Cons.IH [of L1 ln1] by (simp add: s1)
qed

lemma eye_shape: "length (eye A) = A \<and> list_all (\<lambda>row. length row = A) (eye A)"
  by (simp add: eye_def list_all_iff)

lemma subLogLike_padded:
  assumes v: "valid_input al dtp pidx Q rootProb"
  shows "\<exists>ll ll'. subLogLike al dtp pidx Q rootProb = Inr ll \<and>
      subLogLike (map (\<lambda>row. row @ replicate e (- 1))
                    (al @ replicate p (replicate (length (hd al)) (- 1))))
                 (dtp @ replicate p 0) (pidx @ map int [length al..<length al + p]) Q rootProb = Inr ll' \<and>
      take (length (hd al)) ll' = ll"
proof -
  define R C A where "R = length al" and "C = length (hd al)" and "A = length Q"
  define al' where "al' = map (\<lambda>row. row @ replicate e (- 1)) (al @ replicate p (replicate C (- 1)))"
  define pidx' where "pidx' = pidx @ map int [R..<R + p]"
  define sm where "sm = map (\<lambda>d. expm (map (map (\<lambda>q. q * d)) Q)) dtp"
  define sm' where "sm' = sm @ replicate p (eye A)"
  from v have ne: "al \<noteq> []"
    and rect0: "list_all (\<lambda>row. length row = length (hd al)) al"
    and ld0: "length dtp = length al" and lp0: "length pidx = length al"
    and par0: "list_all (\<lambda>i. 0 \<le> pidx ! i \<and> pidx ! i < int (length al)) [1..<length al]"
    and Q0: "Q \<noteq> []" and sq: "list_all (\<lambda>row. length row = length Q) Q"
    and lr0: "length rootProb = length Q"
    unfolding valid_input_def by blast+
  have rect: "length row = C" if "row \<in> set al" for row
    using rect0 that unfolding list_all_iff C_def by blast
  have ld: "length dtp = R" and lp: "length pidx = R" and lr: "length rootProb = A"
    using ld0 lp0 lr0 unfolding R_def A_def by blast+
  have Apos: "0 < A" using Q0 unfolding A_def by simp
  have par: "0 \<le> pidx ! i \<and> pidx ! i < int R" if "0 < i" "i < R" for i
  proof -
    from that have "i \<in> set [1..<length al]" unfolding R_def by simp
    with par0 show ?thesis unfolding list_all_iff R_def by blast
  qed
  from ne have Rpos: "0 < R" by (simp add: R_def)
  have lsm: "length sm = R" by (simp add: sm_def ld)
  have lsm': "length sm' = R + p" by (simp add: sm'_def lsm)
  have csm: "computeSubMatrixForBranchLengths dtp Q = Inr sm"
    using sq by (simp add: computeSubMatrixForBranchLengths_def sm_def)
  have z: "expm (map (map (\<lambda>q. q * 0)) Q) = eye A"
    unfolding scale_zero [OF sq] expm_zeros A_def by (rule refl)
  have "map (\<lambda>d. expm (map (map (\<lambda>q. q * d)) Q)) (dtp @ replicate p 0) = sm'"
    unfolding sm'_def sm_def map_append map_replicate z by (rule refl)
  then have csm': "computeSubMatrixForBranchLengths (dtp @ replicate p 0) Q = Inr sm'"
    unfolding computeSubMatrixForBranchLengths_def using sq by simp
  have shape: "list_all (\<lambda>m. length m = A \<and> list_all (\<lambda>row. length row = A) m) sm"
    using expm_shape by (simp add: sm_def list_all_iff A_def)
  then have shape': "list_all (\<lambda>m. length m = A \<and> list_all (\<lambda>row. length row = A) m) sm'"
    using eye_shape [of A] by (auto simp add: sm'_def list_all_iff)
  have ne': "al' \<noteq> []" using ne by (simp add: al'_def)
  have hd': "length (hd al') = C + e"
    using ne by (simp add: al'_def hd_map hd_append C_def)
  define S0 where "S0 = (init_likelihood A al, replicate C (Num 0))"
  define S0' where "S0' = (init_likelihood A al', replicate (C + e) (Num 0))"
  have unp: "subLogLikeForMatrices al pidx sm rootProb =
      Inr (root_loglike rootProb (fold (prune_step pidx sm) (rev [1..<R]) S0))"
    using subLogLikeForMatrices_ok [of pidx sm A rootProb al] lp lsm shape lr ne Apos
    by (simp add: S0_def C_def)
  have pad: "subLogLikeForMatrices al' pidx' sm' rootProb =
      Inr (root_loglike rootProb (fold (prune_step pidx' sm') (rev [1..<R + p]) S0'))"
    using subLogLikeForMatrices_ok [of pidx' sm' A rootProb al'] lp lsm' shape' lr ne' Apos
    by (simp add: S0'_def hd' pidx'_def)
  have lenL0': "length (fst S0') = R + p"
    by (simp add: S0'_def init_likelihood_def al'_def R_def)
  have split: "rev [1..<R + p] = rev [R..<R + p] @ rev [1..<R]"
    using Rpos upt_add_eq_append [of 1 R p] by simp
  have phase1: "fold (prune_step pidx' sm') (rev [R..<R + p]) S0' = S0'"
  proof (rule fold_fixed)
    fix c assume "c \<in> set (rev [R..<R + p])"
    then have c: "R \<le> c" "c < R + p" by simp_all
    have lal': "length al' = R + p" by (simp add: al'_def R_def)
    have alc: "al' ! c = replicate (C + e) (- 1)"
      using c by (simp add: al'_def nth_append R_def replicate_add)
    have "init_likelihood A al' ! c = map (\<lambda>tok. map Num (jax_get (tokenLookup A) (tok + 1))) (al' ! c)"
      unfolding init_likelihood_def using c lal' by (intro nth_map) simp
    then have row: "init_likelihood A al' ! c = replicate (C + e) (replicate A (Num 1))"
      unfolding alc by (simp add: token_gap0)
    have pc: "pidx' ! c = int c"
      using c by (simp add: pidx'_def nth_append lp)
    have sc: "sm' ! c = eye A"
      using c by (simp add: sm'_def nth_append lsm)
    have "c < length (init_likelihood A al')"
      using c by (simp add: init_likelihood_def al'_def R_def)
    then show "prune_step pidx' sm' c S0' = S0'"
      unfolding S0'_def
      by (intro prune_step_padding [where A = A and C' = "C + e"]) (simp_all add: pc sc row Apos)
  qed
  have init: "restrict_state R C S0' = S0"
  proof -
    have "take R (init_likelihood A al') = map (\<lambda>row. map (\<lambda>tok. map Num (jax_get (tokenLookup A) (tok + 1))) (row @ replicate e (- 1))) al"
      by (simp add: init_likelihood_def al'_def R_def take_map)
    moreover have "map (take C) (map (\<lambda>row. map (\<lambda>tok. map Num (jax_get (tokenLookup A) (tok + 1))) (row @ replicate e (- 1))) al)
        = init_likelihood A al"
      unfolding init_likelihood_def map_map comp_def
      by (intro map_cong) (simp_all add: rect take_map)
    ultimately show ?thesis
      by (simp add: restrict_state_def S0'_def S0_def)
  qed
  obtain L0' ln0' where S0'eq: "S0' = (L0', ln0')" by (cases S0')
  with lenL0' have lenL0: "R \<le> length L0'" by simp
  have cond: "\<forall>c\<in>set (rev [1..<R]). c < R \<and> 0 \<le> pidx ! c \<and> pidx ! c < int R \<and>
      pidx' ! c = pidx ! c \<and> sm' ! c = sm ! c"
    using par by (auto simp add: pidx'_def sm'_def nth_append lp lsm)
  have phase2: "restrict_state R C (fold (prune_step pidx' sm') (rev [1..<R]) S0') =
      fold (prune_step pidx sm) (rev [1..<R]) S0"
    using fold_prune_step_restrict [OF cond lenL0, of C ln0']
    unfolding S0'eq [symmetric] init .
  obtain Lf lnf where fin: "fold (prune_step pidx' sm') (rev [1..<R]) S0' = (Lf, lnf)"
    by (cases "fold (prune_step pidx' sm') (rev [1..<R]) S0'")
  have "length Lf = length L0'"
    using length_fold_prune_step [of pidx' sm' "rev [1..<R]" L0' ln0']
    unfolding S0'eq [symmetric] fin by simp
  with lenL0 have lenLf: "R \<le> length Lf" by simp
  have whole: "fold (prune_step pidx' sm') (rev [1..<R + p]) S0' = (Lf, lnf)"
    unfolding split fold_append comp_def phase1 fin ..
  have "take C (root_loglike rootProb (Lf, lnf)) =
      root_loglike rootProb (fold (prune_step pidx sm) (rev [1..<R]) S0)"
    using take_root_loglike [OF Rpos lenLf, of C rootProb lnf] phase2
    unfolding fin by simp
  then have "take C (root_loglike rootProb (fold (prune_step pidx' sm') (rev [1..<R + p]) S0')) =
      root_loglike rootProb (fold (prune_step pidx sm) (rev [1..<R]) S0)"
    unfolding whole .
  moreover have "subLogLike al dtp pidx Q rootProb =
      Inr (root_loglike rootProb (fold (prune_step pidx sm) (rev [1..<R]) S0))"
    unfolding subLogLike_def csm using unp by simp
  moreover have "subLogLike al' (dtp @ replicate p 0) pidx' Q rootProb =
      Inr (root_loglike rootProb (fold (prune_step pidx' sm') (rev [1..<R + p]) S0'))"
    unfolding subLogLike_def csm' using pad by simp
  ultimately show ?thesis
    unfolding al'_def pidx'_def R_def C_def by blast
qed


lemma padAlignment_shape:
  assumes ne: "al \<noteq> []"
    and pad: "padAlignment al pidx dtp nRows nCols colMultiplier rowMultiplier = Inr (al', pidx', dtp')"
  shows "\<exists>p e. al' = map (\<lambda>row. row @ replicate e (- 1))
                       (al @ replicate p (replicate (length (hd al)) (- 1))) \<and>
               pidx' = pidx @ map int [length al..<length al + p] \<and>
               dtp' = dtp @ replicate p 0"
proof -
  define R C where "R = length al" and "C = length (hd al)"
  define nC where "nC = (case nCols of None \<Rightarrow> padDimension C colMultiplier | Some n \<Rightarrow> n)"
  define nR where "nR = (case nRows of None \<Rightarrow> padDimension R rowMultiplier | Some n \<Rightarrow> n)"
  define p where "p = nat nR - R"
  define e where "e = nat nC - C"
  define al1 where "al1 = al @ replicate p (replicate C (- 1))"
  define pidx1 where "pidx1 = pidx @ map int [R..<R + p]"
  define dtp1 where "dtp1 = dtp @ replicate p 0"
  have rows: "(if int R < nR
       then (al @ replicate (nat nR - R) (replicate C (- 1)),
             dtp @ replicate (nat nR - R) 0,
             pidx @ map int [R..<nat nR])
       else (al, dtp, pidx)) = (al1, dtp1, pidx1)"
  proof (cases "int R < nR")
    case True
    then have "nat nR = R + p" by (simp add: p_def)
    with True show ?thesis by (simp add: al1_def dtp1_def pidx1_def p_def)
  next
    case False
    then have "p = 0" by (simp add: p_def)
    with False show ?thesis by (simp add: al1_def dtp1_def pidx1_def)
  qed
  have unfolded: "padAlignment al pidx dtp nRows nCols colMultiplier rowMultiplier =
      (if int C < nC
       then (if nR < 0 then Inl ValueError
             else if int (length al1) \<noteq> nR then Inl TypeError
             else Inr (map (\<lambda>row. row @ replicate (nat nC - C) (- 1)) al1, pidx1, dtp1))
       else Inr (al1, pidx1, dtp1))"
  proof -
    have C': "(if al = [] then 0 else length (hd al)) = C" using ne by (simp add: C_def)
    show ?thesis
      unfolding padAlignment_def Let_def C' R_def [symmetric] nC_def [symmetric] nR_def [symmetric]
        rows prod.case ..
  qed
  have "al' = map (\<lambda>row. row @ replicate e (- 1)) al1 \<and> pidx' = pidx1 \<and> dtp' = dtp1"
  proof (cases "int C < nC")
    case True
    with pad unfolded show ?thesis by (auto simp add: e_def split: if_splits)
  next
    case False
    then have "e = 0" by (simp add: e_def)
    with False pad unfolded show ?thesis by simp
  qed
  then show ?thesis
    unfolding al1_def pidx1_def dtp1_def R_def C_def by blast
qed

text \<open>
  Claim C1. For every well-formed alignment, tree and substitution model, and whatever
  the padded sizes are (given, or computed by \<open>padDimension\<close> from any multiplier):
  \<open>subLogLike\<close> returns per-column log-likelihoods on the unpadded input and on the
  output of \<open>padAlignment\<close>, and the latter restricted to the original columns are
  the former, value for value: the same number in every column where the unpadded
  result is a number, and where a column of likelihood zero makes the unpadded result
  not-a-number, the padded result is not-a-number in that column too.
\<close>

theorem padding_invariance:
  "valid_input alignment distanceToParent parentIndex subRate rootProb \<Longrightarrow>
   padAlignment alignment parentIndex distanceToParent nRows nCols colMultiplier rowMultiplier =
     Inr (alignment', parentIndex', distanceToParent') \<Longrightarrow>
   \<exists>ll ll'. subLogLike alignment distanceToParent parentIndex subRate rootProb = Inr ll \<and>
            subLogLike alignment' distanceToParent' parentIndex' subRate rootProb = Inr ll' \<and>
            take (length (hd alignment)) ll' = ll"
proof -
  assume v: "valid_input alignment distanceToParent parentIndex subRate rootProb"
    and pad: "padAlignment alignment parentIndex distanceToParent nRows nCols colMultiplier rowMultiplier =
      Inr (alignment', parentIndex', distanceToParent')"
  from v have "alignment \<noteq> []" unfolding valid_input_def by blast
  from padAlignment_shape [OF this pad] obtain p e where
    "alignment' = map (\<lambda>row. row @ replicate e (- 1))
        (alignment @ replicate p (replicate (length (hd alignment)) (- 1)))"
    "parentIndex' = parentIndex @ map int [length alignment..<length alignment + p]"
    "distanceToParent' = distanceToParent @ replicate p 0"
    by blast
  then show ?thesis
    using subLogLike_padded [OF v, of e p] by simp
qed



text \<open>
  Three identical one-column sequences, no substitutions: the log-likelihood is the
  logarithm of one half, before and after padding to four rows and two columns; the
  added all-gap column has log-likelihood 0.
\<close>

lemma scale_zero_2: "map (map (\<lambda>q. q * d)) [[0, 0], [0, 0 :: real]] = [[0, 0], [0, 0]]"
  by simp

lemma subMatrix_no_substitution:
  "computeSubMatrixForBranchLengths ds [[0, 0], [0, 0]] = Inr (map (\<lambda>d. [[1, 0], [0, 1]]) ds)"
  by (simp add: computeSubMatrixForBranchLengths_def expm_zero_2)

lemma subLogLike_three_equal:
  "subLogLike [[0], [0], [0]] [0, 1, 1] [- 1, 0, 0] [[0, 0], [0, 0]] [1 / 2, 1 / 2] =
     Inr [Num (ln (1 / 2))]"
  by (simp add: subLogLike_def subMatrix_no_substitution subLogLikeForMatrices_def Let_def
      tokenLookup_def eye_def upt_rec prune_step_def jax_get_def jax_at_def norm_index_def
      matvec_def fsum_def)

lemma subLogLike_three_equal_padded:
  "subLogLike [[0, - 1], [0, - 1], [0, - 1], [- 1, - 1]] [0, 1, 1, 0] [- 1, 0, 0, 3]
       [[0, 0], [0, 0]] [1 / 2, 1 / 2] =
     Inr [Num (ln (1 / 2)), Num 0]"
  by (simp add: subLogLike_def subMatrix_no_substitution subLogLikeForMatrices_def Let_def
      tokenLookup_def eye_def upt_rec prune_step_def jax_get_def jax_at_def norm_index_def
      matvec_def fsum_def)

text \<open>
  When the sequences differ and no substitution is possible, the column has likelihood
  zero: the rescaling divides zero by zero and the result is not-a-number.
\<close>

lemma subLogLike_zero_likelihood:
  "subLogLike [[0], [1], [0]] [0, 1, 1] [- 1, 0, 0] [[0, 0], [0, 0]] [1 / 2, 1 / 2] = Inr [NaN]"
  by (simp add: subLogLike_def subMatrix_no_substitution subLogLikeForMatrices_def Let_def
      tokenLookup_def eye_def upt_rec prune_step_def jax_get_def jax_at_def norm_index_def
      matvec_def fsum_def)

theorem padding_invariance_witness:
  "valid_input [[0], [0], [0]] [0, 1, 1] [- 1, 0, 0] [[0, 0], [0, 0]] [1 / 2, 1 / 2] \<and>
   padAlignment [[0], [0], [0]] [- 1, 0, 0] [0, 1, 1] None (Some 2) 2 2 =
     Inr ([[0, - 1], [0, - 1], [0, - 1], [- 1, - 1]], [- 1, 0, 0, 3], [0, 1, 1, 0]) \<and>
   subLogLike [[0], [0], [0]] [0, 1, 1] [- 1, 0, 0] [[0, 0], [0, 0]] [1 / 2, 1 / 2] =
     Inr [Num (ln (1 / 2))] \<and>
   subLogLike [[0, - 1], [0, - 1], [0, - 1], [- 1, - 1]] [0, 1, 1, 0] [- 1, 0, 0, 3]
       [[0, 0], [0, 0]] [1 / 2, 1 / 2] =
     Inr [Num (ln (1 / 2)), Num 0] \<and>
   (\<exists>ll ll'. subLogLike [[0], [0], [0]] [0, 1, 1] [- 1, 0, 0] [[0, 0], [0, 0]] [1 / 2, 1 / 2] = Inr ll \<and>
      subLogLike [[0, - 1], [0, - 1], [0, - 1], [- 1, - 1]] [0, 1, 1, 0] [- 1, 0, 0, 3]
        [[0, 0], [0, 0]] [1 / 2, 1 / 2] = Inr ll' \<and>
      take (length (hd [[0::int], [0], [0]])) ll' = ll)"
proof -
  have v: "valid_input [[0], [0], [0]] [0, 1, 1] [- 1, 0, 0] [[0, 0], [0, 0]] [1 / 2, 1 / 2]"
    by (simp add: valid_input_def upt_rec expm_zero_2)
  have "bit_length 2 = 2"
    by (simp add: bit_length.simps)
  then have "padDimension (Suc (Suc (Suc 0))) 2 = 4"
    by (simp add: padDimension_def)
  then have pad: "padAlignment [[0], [0], [0]] [- 1, 0, 0] [0, 1, 1] None (Some 2) 2 2 =
     Inr ([[0, - 1], [0, - 1], [0, - 1], [- 1, - 1]], [- 1, 0, 0, 3], [0, 1, 1, 0])"
    by (simp add: padAlignment_def Let_def upt_rec)
  from padding_invariance [OF v pad] v pad subLogLike_three_equal subLogLike_three_equal_padded
  show ?thesis by blast
qed

end
